theory Spec2Isabelle
  imports Complex_Main "HOL-Library.List_Lexorder" "HOL-Library.Char_ord" "HOL-Library.Multiset"
begin

section \<open>Job model (queuectl/models.py)\<close>

text \<open>
  \<^verbatim>\<open>JobState\<close> is the enumeration of models.py. Timestamps are the ISO-8601 texts the
  program stores (\<^verbatim>\<open>datetime.utcnow().isoformat() + "Z"\<close>); the store compares them as
  TEXT, byte by byte, which is the lexicographic order on \<open>string\<close>.
\<close>

datatype JobState = PENDING | PROCESSING | COMPLETED | FAILED | DEAD

type_synonym timestamp = string

text \<open>
  The dataclass \<^verbatim>\<open>Job\<close>. The field \<^verbatim>\<open>id\<close> is \<open>job_id\<close> and \<^verbatim>\<open>output\<close> is
  \<open>output_text\<close> here. \<^verbatim>\<open>attempts\<close> starts at 0 and is only incremented or reset to 0,
  so it is a natural number; \<^verbatim>\<open>max_retries\<close>, \<^verbatim>\<open>priority\<close> and \<^verbatim>\<open>timeout\<close> come from the
  producer and are Python integers.
\<close>

record Job =
  job_id :: string
  command :: string
  state :: JobState
  attempts :: nat
  max_retries :: int
  created_at :: timestamp
  updated_at :: timestamp
  priority :: int
  run_at :: "timestamp option"
  timeout :: "int option"
  output_text :: "string option"
  error :: "string option"
  next_retry_at :: "timestamp option"

text \<open>Python truth of an \<^verbatim>\<open>Optional[str]\<close>: neither \<^verbatim>\<open>None\<close> nor the empty string.\<close>

definition truthy_str :: "string option \<Rightarrow> bool" where
  "truthy_str e = (case e of None \<Rightarrow> False | Some s \<Rightarrow> s \<noteq> [])"

text \<open>
  \<^verbatim>\<open>Job.update_state(new_state, error=None)\<close>; \<open>now\<close> is the reading of the clock that
  the method stores in \<^verbatim>\<open>updated_at\<close>.
\<close>

definition update_state :: "Job \<Rightarrow> JobState \<Rightarrow> string option \<Rightarrow> timestamp \<Rightarrow> Job" where
  "update_state job new_state err now =
     (let job1 = job\<lparr>state := new_state, updated_at := now\<rparr>
      in if truthy_str err then job1\<lparr>error := err\<rparr> else job1)"

definition increment_attempts :: "Job \<Rightarrow> timestamp \<Rightarrow> Job" where
  "increment_attempts job now = job\<lparr>attempts := attempts job + 1, updated_at := now\<rparr>"

definition should_retry :: "Job \<Rightarrow> bool" where
  "should_retry job \<longleftrightarrow> state job = FAILED \<and> int (attempts job) < max_retries job"

definition should_move_to_dlq :: "Job \<Rightarrow> bool" where
  "should_move_to_dlq job \<longleftrightarrow> state job = FAILED \<and> int (attempts job) \<ge> max_retries job"

section \<open>The jobs table (queuectl/storage.py)\<close>

text \<open>
  The table is the list of its rows in rowid order. The three SQL forms the program uses
  are written once: \<^verbatim>\<open>UPDATE .. SET .. WHERE ..\<close> returning the rows and the rowcount,
  \<^verbatim>\<open>ORDER BY\<close> as an insertion sort by the "comes before" relation of the ordering terms,
  and \<^verbatim>\<open>fetchone\<close>.
\<close>

type_synonym table = "Job list"

definition sql_update :: "(Job \<Rightarrow> bool) \<Rightarrow> (Job \<Rightarrow> Job) \<Rightarrow> table \<Rightarrow> table \<times> nat" where
  "sql_update wh st rows = (map (\<lambda>r. if wh r then st r else r) rows, length (filter wh rows))"

fun insert_by :: "('a \<Rightarrow> 'a \<Rightarrow> bool) \<Rightarrow> 'a \<Rightarrow> 'a list \<Rightarrow> 'a list" where
  "insert_by ahead x [] = [x]"
| "insert_by ahead x (y # ys) =
     (if ahead x y then x # y # ys else y # insert_by ahead x ys)"

definition order_by :: "('a \<Rightarrow> 'a \<Rightarrow> bool) \<Rightarrow> 'a list \<Rightarrow> 'a list" where
  "order_by ahead xs = foldr (insert_by ahead) xs []"

definition fetchone :: "'a list \<Rightarrow> 'a option" where
  "fetchone xs = (case xs of [] \<Rightarrow> None | x # _ \<Rightarrow> Some x)"

text \<open>\<^verbatim>\<open>LIMIT n\<close>: SQLite reads a negative limit as no limit.\<close>

definition sql_limit :: "int \<Rightarrow> 'a list \<Rightarrow> 'a list" where
  "sql_limit n xs = (if n < 0 then xs else take (nat n) xs)"

text \<open>The Python exceptions that leave the modelled functions.\<close>

datatype py_error = OverflowError | ValueError

text \<open>
  \<^verbatim>\<open>Storage.add_job\<close>. An INTEGER column holds a signed 64-bit value: binding a Python
  integer outside that range raises OverflowError before the INSERT runs, which the method
  does not catch, and nothing is stored. Otherwise the primary key makes the INSERT fail
  with IntegrityError when the id exists, and the method returns False.
\<close>

definition sqlite_integer :: "int \<Rightarrow> bool" where
  "sqlite_integer i \<longleftrightarrow> - (2 ^ 63) \<le> i \<and> i < 2 ^ 63"

definition add_job :: "table \<Rightarrow> Job \<Rightarrow> table \<times> (py_error + bool)" where
  "add_job rows job =
     (if \<not> (sqlite_integer (int (attempts job)) \<and> sqlite_integer (max_retries job)
             \<and> sqlite_integer (priority job)
             \<and> (case timeout job of None \<Rightarrow> True | Some t \<Rightarrow> sqlite_integer t))
      then (rows, Inl OverflowError)
      else if job_id job \<in> set (map job_id rows) then (rows, Inr False)
      else (rows @ [job], Inr True))"

definition get_job :: "table \<Rightarrow> string \<Rightarrow> Job option" where
  "get_job rows jid = fetchone (filter (\<lambda>r. job_id r = jid) rows)"

text \<open>
  \<^verbatim>\<open>Storage.update_job\<close> writes every column except \<^verbatim>\<open>id\<close> and \<^verbatim>\<open>created_at\<close>, in
  the rows with the job's id; \<open>write_columns job\<close> is its SET list.
\<close>

definition write_columns :: "Job \<Rightarrow> Job \<Rightarrow> Job" where
  "write_columns job r =
     r\<lparr>command := command job, state := state job, attempts := attempts job,
       max_retries := max_retries job, priority := priority job,
       run_at := run_at job, timeout := timeout job,
       output_text := output_text job, error := error job,
       next_retry_at := next_retry_at job, updated_at := updated_at job\<rparr>"

definition update_job :: "table \<Rightarrow> Job \<Rightarrow> table \<times> bool" where
  "update_job rows job =
     (let (rows', rowcount) = sql_update (\<lambda>r. job_id r = job_id job) (write_columns job) rows
      in (rows', rowcount > 0))"

text \<open>
  \<^verbatim>\<open>Storage.get_next_pending_job\<close>:
  \<^verbatim>\<open>WHERE state = 'pending' AND (run_at IS NULL OR run_at <= now)
  ORDER BY priority DESC, created_at ASC LIMIT 1\<close>.
\<close>

definition ready_pending :: "timestamp \<Rightarrow> Job \<Rightarrow> bool" where
  "ready_pending now r \<longleftrightarrow>
     state r = PENDING \<and> (case run_at r of None \<Rightarrow> True | Some t \<Rightarrow> t \<le> now)"

definition priority_desc_created_asc :: "Job \<Rightarrow> Job \<Rightarrow> bool" where
  "priority_desc_created_asc a b \<longleftrightarrow>
     priority a > priority b \<or> (priority a = priority b \<and> created_at a \<le> created_at b)"

definition get_next_pending_job :: "timestamp \<Rightarrow> table \<Rightarrow> Job option" where
  "get_next_pending_job now rows =
     fetchone (sql_limit 1 (order_by priority_desc_created_asc (filter (ready_pending now) rows)))"

text \<open>
  \<^verbatim>\<open>Storage.get_retryable_jobs\<close>:
  \<^verbatim>\<open>WHERE state = 'failed' AND next_retry_at IS NOT NULL AND next_retry_at <= now
  ORDER BY next_retry_at ASC\<close>.
\<close>

definition retry_due :: "timestamp \<Rightarrow> Job \<Rightarrow> bool" where
  "retry_due now r \<longleftrightarrow>
     state r = FAILED \<and> (case next_retry_at r of None \<Rightarrow> False | Some t \<Rightarrow> t \<le> now)"

text \<open>SQLite puts NULL before every value in an ascending order.\<close>

definition next_retry_asc :: "Job \<Rightarrow> Job \<Rightarrow> bool" where
  "next_retry_asc a b \<longleftrightarrow>
     (case next_retry_at a of
        None \<Rightarrow> True
      | Some s \<Rightarrow> (case next_retry_at b of None \<Rightarrow> False | Some t \<Rightarrow> s \<le> t))"

definition get_retryable_jobs :: "timestamp \<Rightarrow> table \<Rightarrow> Job list" where
  "get_retryable_jobs now rows = order_by next_retry_asc (filter (retry_due now) rows)"

text \<open>
  \<^verbatim>\<open>Storage.reset_retryable_job_to_pending\<close>:
  \<^verbatim>\<open>UPDATE jobs SET state = 'pending', next_retry_at = NULL, updated_at = now
  WHERE id = ? AND state = 'failed' AND next_retry_at IS NOT NULL AND next_retry_at <= now\<close>.
\<close>

definition reset_retryable_job_to_pending :: "timestamp \<Rightarrow> table \<Rightarrow> string \<Rightarrow> table \<times> bool" where
  "reset_retryable_job_to_pending now rows jid =
     (let (rows', rowcount) =
        sql_update (\<lambda>r. job_id r = jid \<and> retry_due now r)
          (\<lambda>r. r\<lparr>state := PENDING, next_retry_at := None, updated_at := now\<rparr>) rows
      in (rows', rowcount > 0))"

text \<open>
  \<^verbatim>\<open>Storage.list_jobs(state=None, limit=100)\<close>: newest first by \<^verbatim>\<open>created_at\<close>, and
  \<^verbatim>\<open>Storage.get_dlq_jobs\<close>, which calls it with the default limit.
\<close>

definition created_desc :: "Job \<Rightarrow> Job \<Rightarrow> bool" where
  "created_desc a b \<longleftrightarrow> created_at a \<ge> created_at b"

definition list_jobs :: "table \<Rightarrow> JobState option \<Rightarrow> int \<Rightarrow> Job list" where
  "list_jobs rows st n =
     (case st of
        Some s \<Rightarrow> sql_limit n (order_by created_desc (filter (\<lambda>r. state r = s) rows))
      | None \<Rightarrow> sql_limit n (order_by created_desc rows))"

definition get_dlq_jobs :: "table \<Rightarrow> Job list" where
  "get_dlq_jobs rows = list_jobs rows (Some DEAD) 100"

text \<open>\<^verbatim>\<open>Storage.reset_job_from_dlq\<close>.\<close>

definition reset_job_from_dlq :: "timestamp \<Rightarrow> table \<Rightarrow> string \<Rightarrow> table \<times> Job option" where
  "reset_job_from_dlq now rows jid =
     (case get_job rows jid of
        None \<Rightarrow> (rows, None)
      | Some job \<Rightarrow>
          if state job = DEAD then
            (let job1 = job\<lparr>state := PENDING, attempts := 0, error := None,
                            next_retry_at := None, updated_at := now\<rparr>
             in (fst (update_job rows job1), Some job1))
          else (rows, None))"

section \<open>Executor and scheduler (queuectl/scheduler.py)\<close>

text \<open>
  Python numbers. A float is a finite real, an infinity or a NaN. \<^verbatim>\<open>int(x)\<close> of a float
  truncates toward zero, and raises OverflowError for an infinity and ValueError for a
  NaN.
\<close>

datatype py_float = Finite real | PosInf | NegInf | NaN

datatype py_number = PyInt int | PyFloat py_float

definition int_of_float :: "py_float \<Rightarrow> py_error + int" where
  "int_of_float x =
     (case x of
        Finite r \<Rightarrow> Inr (if 0 \<le> r then \<lfloor>r\<rfloor> else \<lceil>r\<rceil>)
      | PosInf \<Rightarrow> Inl OverflowError
      | NegInf \<Rightarrow> Inl OverflowError
      | NaN \<Rightarrow> Inl ValueError)"

text \<open>
  What the scheduler takes from the platform. \<open>float_pow x n\<close> is the result of the float
  power \<^verbatim>\<open>x ** n\<close>: the float the C library returns, rounded as it rounds, or the
  OverflowError Python raises when the result is out of the range of a float.
  \<open>utcnow_plus delay\<close> is the text of \<^verbatim>\<open>datetime.utcnow() + timedelta(seconds=delay)\<close>, or
  the OverflowError Python raises when the delay or the sum leaves the range of its dates.
\<close>

record platform =
  float_pow :: "py_float \<Rightarrow> nat \<Rightarrow> py_error + py_float"
  utcnow_plus :: "int \<Rightarrow> py_error + timestamp"

text \<open>
  The settings the engine reads from \<^verbatim>\<open>Config\<close>. \<^verbatim>\<open>backoff_base\<close> is the integer 2 of
  the default configuration, a number of the configuration file, or the float that
  \<^verbatim>\<open>config set backoff-base\<close> stores (\<^verbatim>\<open>value = float(value)\<close>).
\<close>

record Config =
  cfg_max_retries :: int
  backoff_base :: py_number
  default_timeout :: "int option"

definition config_set_backoff_base :: "Config \<Rightarrow> py_float \<Rightarrow> Config" where
  "config_set_backoff_base cfg x = cfg\<lparr>backoff_base := PyFloat x\<rparr>"

text \<open>Python's \<^verbatim>\<open>str\<close> of an integer, as the f-strings of \<^verbatim>\<open>execute\<close> print it.\<close>

definition digit_char :: "nat \<Rightarrow> char" where
  "digit_char d = ''0123456789'' ! d"

function str_nat :: "nat \<Rightarrow> string" where
  "str_nat n = (if n < 10 then [digit_char n] else str_nat (n div 10) @ [digit_char (n mod 10)])"
  by pat_completeness auto
termination
  by (relation "measure (\<lambda>n. n)") auto

declare str_nat.simps [simp del]

definition str_int :: "int \<Rightarrow> string" where
  "str_int i = (if i < 0 then CHR ''-'' # str_nat (nat (- i)) else str_nat (nat i))"

definition str_timeout :: "int option \<Rightarrow> string" where
  "str_timeout t = (case t of None \<Rightarrow> ''None'' | Some i \<Rightarrow> str_int i)"

text \<open>The number a text of decimal digits stands for, to read back what \<open>str_int\<close> prints.\<close>

definition decimal_value :: "string \<Rightarrow> nat" where
  "decimal_value s = foldl (\<lambda>a c. 10 * a + (of_char c - 48)) 0 s"

text \<open>\<^verbatim>\<open>job.timeout or self.timeout\<close>: Python's \<^verbatim>\<open>or\<close> passes over None and over 0.\<close>

definition timeout_or :: "int option \<Rightarrow> int option \<Rightarrow> int option" where
  "timeout_or a b = (case a of None \<Rightarrow> b | Some t \<Rightarrow> if t = 0 then b else Some t)"

text \<open>\<^verbatim>\<open>error or "Max retries exceeded"\<close>.\<close>

definition error_or :: "string option \<Rightarrow> string \<Rightarrow> string" where
  "error_or e d = (case e of None \<Rightarrow> d | Some s \<Rightarrow> if s = [] then d else s)"

text \<open>
  What the child process did, as \<^verbatim>\<open>execute\<close> observes it: \<^verbatim>\<open>Popen\<close> or \<^verbatim>\<open>communicate\<close>
  raised an exception with the given text; \<^verbatim>\<open>communicate\<close> raised \<^verbatim>\<open>TimeoutExpired\<close>, the
  exception carrying the stdout and stderr read so far; or the process ended with a return
  code, its stdout and its stderr.
\<close>

datatype proc_outcome =
    Raised string
  | TimeoutExpired string string
  | Exited int string string

text \<open>
  \<^verbatim>\<open>JobExecutor.execute\<close>; \<open>self_timeout\<close> is the executor's \<^verbatim>\<open>self.timeout\<close>. Every
  exception of the body is caught, so the result is always the triple.
\<close>

definition execute :: "int option \<Rightarrow> Job \<Rightarrow> proc_outcome \<Rightarrow> bool \<times> string \<times> string option" where
  "execute self_timeout job oc =
     (let t = timeout_or (timeout job) self_timeout in
      case oc of
        Raised msg \<Rightarrow> (False, [], Some msg)
      | TimeoutExpired so se \<Rightarrow>
          (False, [], Some (''Job timed out after '' @ str_timeout t @ '' seconds''))
      | Exited rc so se \<Rightarrow>
          (let out = so @ se; success = (rc = 0) in
           if \<not> success \<and> se = [] then
             (success, out, Some (''Command failed with exit code '' @ str_int rc))
           else (success, out, if se \<noteq> [] then Some se else None)))"

text \<open>
  \<^verbatim>\<open>Scheduler.calculate_retry_delay\<close>: \<^verbatim>\<open>int(base ** attempts)\<close>. On a Python integer the
  power is exact and unbounded; on a float it is the float power of the platform, which
  \<^verbatim>\<open>int\<close> then truncates, and its OverflowError leaves the method.
\<close>

definition calculate_retry_delay :: "platform \<Rightarrow> Config \<Rightarrow> nat \<Rightarrow> py_error + int" where
  "calculate_retry_delay pf cfg n =
     (case backoff_base cfg of
        PyInt b \<Rightarrow> Inr (b ^ n)
      | PyFloat x \<Rightarrow>
          (case float_pow pf x n of
             Inl e \<Rightarrow> Inl e
           | Inr y \<Rightarrow> int_of_float y))"

text \<open>
  \<^verbatim>\<open>Scheduler.schedule_retry\<close>. When the delay or the retry time raises, nothing is
  written.
\<close>

definition schedule_retry ::
  "Config \<Rightarrow> platform \<Rightarrow> timestamp \<Rightarrow> table \<Rightarrow> Job \<Rightarrow> py_error + table" where
  "schedule_retry cfg pf now rows job =
     (case calculate_retry_delay pf cfg (attempts job) of
        Inl e \<Rightarrow> Inl e
      | Inr delay \<Rightarrow>
          (case utcnow_plus pf delay of
             Inl e \<Rightarrow> Inl e
           | Inr t \<Rightarrow>
               Inr (fst (update_job rows
                      (update_state (job\<lparr>next_retry_at := Some t\<rparr>) FAILED None now)))))"

definition move_to_dlq :: "timestamp \<Rightarrow> table \<Rightarrow> Job \<Rightarrow> string \<Rightarrow> table" where
  "move_to_dlq now rows job err =
     fst (update_job rows ((update_state job DEAD (Some err) now)\<lparr>next_retry_at := None\<rparr>))"

text \<open>
  \<^verbatim>\<open>Scheduler.process_job\<close>. \<open>run\<close> gives what the child process of a job does; \<open>clk 0\<close>,
  \<open>clk 1\<close> and \<open>clk 2\<close> are the readings of the clock at the update to processing, at
  completion or at the increment, and at the last state update. The result is the table
  and the returned boolean, or the exception that leaves \<^verbatim>\<open>schedule_retry\<close>.
\<close>

definition process_job ::
  "Config \<Rightarrow> (Job \<Rightarrow> proc_outcome) \<Rightarrow> platform \<Rightarrow> (nat \<Rightarrow> timestamp)
     \<Rightarrow> table \<Rightarrow> Job \<Rightarrow> table \<times> (py_error + bool)" where
  "process_job cfg run pf clk rows job0 =
     (case get_job rows (job_id job0) of
        None \<Rightarrow> (rows, Inr False)
      | Some job \<Rightarrow>
          (let (rows1, job1) =
                 (if state job \<noteq> PROCESSING then
                    (let j = update_state job PROCESSING None (clk 0)
                     in (fst (update_job rows j), j))
                  else (rows, job));
               (success, out, err) = execute (default_timeout cfg) job1 (run job1);
               job2 = job1\<lparr>output_text := Some out\<rparr>
           in if success then
                (fst (update_job rows1 (update_state job2 COMPLETED None (clk 1))), Inr True)
              else
                (let job3 = increment_attempts job2 (clk 1) in
                 if should_retry job3 then
                   (case schedule_retry cfg pf (clk 2) rows1 job3 of
                      Inl e \<Rightarrow> (rows1, Inl e)
                    | Inr rows2 \<Rightarrow> (rows2, Inr False))
                 else if should_move_to_dlq job3 then
                   (move_to_dlq (clk 2) rows1 job3 (error_or err ''Max retries exceeded''),
                    Inr False)
                 else
                   (fst (update_job rows1 (update_state job3 FAILED err (clk 2))), Inr False))))"

text \<open>
  \<^verbatim>\<open>Scheduler.get_next_job\<close>; \<open>clk 0\<close>, \<open>clk 1\<close>, \<open>clk 2\<close> are the clock readings of the
  three storage calls.
\<close>

definition get_next_job :: "(nat \<Rightarrow> timestamp) \<Rightarrow> table \<Rightarrow> table \<times> Job option" where
  "get_next_job clk rows =
     (case get_retryable_jobs (clk 0) rows of
        [] \<Rightarrow> (rows, get_next_pending_job (clk 2) rows)
      | job # _ \<Rightarrow>
          (case reset_retryable_job_to_pending (clk 1) rows (job_id job) of
             (rows', True) \<Rightarrow> (rows', get_job rows' (job_id job))
           | (rows', False) \<Rightarrow> (rows', get_next_pending_job (clk 2) rows')))"

section \<open>Worker (queuectl/worker.py) and enqueue (queuectl/cli.py)\<close>

text \<open>
  \<^verbatim>\<open>Worker._acquire_job_lock\<close>:
  \<^verbatim>\<open>UPDATE jobs SET state = 'processing' WHERE id = ? AND state = 'pending'\<close>.
\<close>

definition acquire_job_lock :: "table \<Rightarrow> string \<Rightarrow> table \<times> bool" where
  "acquire_job_lock rows jid =
     (let (rows', rowcount) =
        sql_update (\<lambda>r. job_id r = jid \<and> state r = PENDING) (\<lambda>r. r\<lparr>state := PROCESSING\<rparr>) rows
      in (rows', rowcount > 0))"

text \<open>
  One pass of the body of \<^verbatim>\<open>Worker._work_loop\<close>. The result says what the pass did:
  nothing to do, the claim was lost, the claimed job could not be reloaded, or a job was
  processed (with what \<^verbatim>\<open>process_job\<close> returned or raised; the loop catches the exception).
  The clock readings 0 to 2 go to \<^verbatim>\<open>get_next_job\<close>, the later ones to \<^verbatim>\<open>process_job\<close>.
\<close>

datatype pass_result = Idle | LostClaim | Vanished | Processed string "py_error + bool"

definition work_pass ::
  "Config \<Rightarrow> (Job \<Rightarrow> proc_outcome) \<Rightarrow> platform \<Rightarrow> (nat \<Rightarrow> timestamp)
     \<Rightarrow> table \<Rightarrow> table \<times> pass_result" where
  "work_pass cfg run pf clk rows =
     (case get_next_job clk rows of
        (rows1, None) \<Rightarrow> (rows1, Idle)
      | (rows1, Some job) \<Rightarrow>
          (case acquire_job_lock rows1 (job_id job) of
             (rows2, False) \<Rightarrow> (rows2, LostClaim)
           | (rows2, True) \<Rightarrow>
               (case get_job rows2 (job_id job) of
                  None \<Rightarrow> (rows2, Vanished)
                | Some job' \<Rightarrow>
                    (let (rows3, r) = process_job cfg run pf (\<lambda>i. clk (i + 3)) rows2 job'
                     in (rows3, Processed (job_id job') r)))))"

text \<open>
  The \<^verbatim>\<open>enqueue\<close> command: the fields of the JSON object (None for an absent key), the
  \<^verbatim>\<open>Job\<close> the command builds from them with the dataclass defaults, and the insertion
  (the command reports an exception of the insertion and exits).
\<close>

record enqueue_data =
  data_id :: string
  data_command :: string
  data_max_retries :: "int option"
  data_priority :: "int option"
  data_run_at :: "timestamp option"
  data_timeout :: "int option"

definition new_job :: "Config \<Rightarrow> timestamp \<Rightarrow> enqueue_data \<Rightarrow> Job" where
  "new_job cfg now d =
     \<lparr>job_id = data_id d, command = data_command d, state = PENDING, attempts = 0,
      max_retries = (case data_max_retries d of None \<Rightarrow> cfg_max_retries cfg | Some k \<Rightarrow> k),
      created_at = now, updated_at = now,
      priority = (case data_priority d of None \<Rightarrow> 0 | Some p \<Rightarrow> p),
      run_at = data_run_at d,
      timeout = (case data_timeout d of None \<Rightarrow> default_timeout cfg | Some t \<Rightarrow> Some t),
      output_text = None, error = None, next_retry_at = None\<rparr>"

definition enqueue ::
  "Config \<Rightarrow> timestamp \<Rightarrow> table \<Rightarrow> enqueue_data \<Rightarrow> table \<times> (py_error + bool)" where
  "enqueue cfg now rows d = add_job rows (new_job cfg now d)"

section \<open>The invariant of the retry time\<close>

text \<open>
  The predicate of the data model: a record whose \<^verbatim>\<open>next_retry_at\<close> is set is in state
  failed.
\<close>

definition retry_invariant :: "table \<Rightarrow> bool" where
  "retry_invariant rows \<longleftrightarrow> (\<forall>r \<in> set rows. next_retry_at r \<noteq> None \<longrightarrow> state r = FAILED)"

section \<open>Runs of the worker loop\<close>

text \<open>
  The loop of \<^verbatim>\<open>Worker._work_loop\<close>, one pass for each environment of the list (what the
  child processes do, the platform and the clock readings of that pass), with the
  results of the passes in order. \<open>executions_of jid\<close> counts the passes that executed the
  job with that id, and \<open>rows_of jid\<close> selects its records.
\<close>

type_synonym pass_env =
  "(Job \<Rightarrow> proc_outcome) \<times> platform \<times> (nat \<Rightarrow> timestamp)"

fun work_passes :: "Config \<Rightarrow> pass_env list \<Rightarrow> table \<Rightarrow> table \<times> pass_result list" where
  "work_passes cfg [] rows = (rows, [])"
| "work_passes cfg ((run, pf, clk) # envs) rows =
     (let (rows1, r) = work_pass cfg run pf clk rows;
          (rows2, rs) = work_passes cfg envs rows1
      in (rows2, r # rs))"

fun executed :: "string \<Rightarrow> pass_result \<Rightarrow> bool" where
  "executed jid (Processed j _) = (j = jid)"
| "executed jid _ = False"

definition executions_of :: "string \<Rightarrow> pass_result list \<Rightarrow> nat" where
  "executions_of jid rs = length (filter (executed jid) rs)"

definition rows_of :: "string \<Rightarrow> table \<Rightarrow> table" where
  "rows_of jid rows = filter (\<lambda>r. job_id r = jid) rows"

section \<open>Sample data\<close>

text \<open>
  The default configuration of config.py, and the job of the retry scenario of
  test_scenarios.py (\<^verbatim>\<open>{"id":"test_job_fail","command":"exit 1","max_retries":2}\<close>) as
  the \<^verbatim>\<open>enqueue\<close> command builds it.
\<close>

definition default_config :: Config where
  "default_config = \<lparr>cfg_max_retries = 3, backoff_base = PyInt 2, default_timeout = Some 300\<rparr>"

definition sample_data :: enqueue_data where
  "sample_data =
     \<lparr>data_id = ''test_job_fail'', data_command = ''exit 1'', data_max_retries = Some 2,
      data_priority = None, data_run_at = None, data_timeout = None\<rparr>"

definition sample_job :: Job where
  "sample_job = new_job default_config ''2026-01-01T00:00:00Z'' sample_data"

text \<open>
  The sample job after a first failure the way \<^verbatim>\<open>schedule_retry\<close> would leave it:
  failed, with a retry time two seconds after its creation.
\<close>

definition sample_failed_job :: Job where
  "sample_failed_job =
     sample_job\<lparr>state := FAILED, attempts := 1, next_retry_at := Some ''2026-01-01T00:00:02Z''\<rparr>"

text \<open>
  The sample job claimed by a worker, and claimed again with the error text of an earlier
  failed attempt in its record.
\<close>

definition sample_claimed_job :: Job where
  "sample_claimed_job = sample_job\<lparr>state := PROCESSING\<rparr>"

definition sample_retried_job :: Job where
  "sample_retried_job =
     sample_job\<lparr>state := PROCESSING, attempts := 1,
       error := Some ''Command failed with exit code 1''\<rparr>"

definition sample_clock :: "nat \<Rightarrow> timestamp" where
  "sample_clock i = ''2026-01-01T00:00:09Z''"

text \<open>
  Two platforms at the inputs used below: one whose float power returns the float nearest
  to 3^40, as \<^verbatim>\<open>3.0 ** 40\<close> does, and one whose float power overflows, as \<^verbatim>\<open>2.0 ** 1024\<close>
  does. Both give the same retry time.
\<close>

definition rounding_platform :: platform where
  "rounding_platform =
     \<lparr>float_pow = (\<lambda>x n. Inr (Finite 12157665459056928768)),
      utcnow_plus = (\<lambda>delay. Inr ''2026-01-01T00:00:11Z'')\<rparr>"

definition sample_platform :: platform where
  "sample_platform =
     \<lparr>float_pow = (\<lambda>x n. Inl OverflowError),
      utcnow_plus = (\<lambda>delay. Inr ''2026-01-01T00:00:11Z'')\<rparr>"

text \<open>
  A dead-letter queue of \<open>n\<close> jobs with ids "0", "1", .. created one after the other.
\<close>

definition sample_dead_jobs :: "nat \<Rightarrow> table" where
  "sample_dead_jobs n =
     map (\<lambda>i. sample_job\<lparr>job_id := str_nat i, state := DEAD, attempts := 2,
                 created_at := ''2026-01-01T00:00:00.'' @ str_nat (100000 + i) @ ''Z''\<rparr>)
       [0..<n]"








text \<open>The environment of a pass in which every command exits with code 1.\<close>

definition failing_env :: pass_env where
  "failing_env = (\<lambda>j. Exited 1 [] [], sample_platform, sample_clock)"

section \<open>Facts about the SQL forms\<close>

lemma sql_update_rows: "fst (sql_update wh st rows) = map (\<lambda>r. if wh r then st r else r) rows"
  by (simp add: sql_update_def)

lemma sql_update_rowcount: "0 < snd (sql_update wh st rows) \<longleftrightarrow> (\<exists>r \<in> set rows. wh r)"
  by (simp add: sql_update_def filter_empty_conv)

lemma sql_update_untouched:
  assumes "\<not> (\<exists>r \<in> set rows. wh r)"
  shows "fst (sql_update wh st rows) = rows"
  unfolding sql_update_rows by (rule map_idI) (use assms in simp)

lemma set_insert_by: "set (insert_by p x xs) = insert x (set xs)"
  by (induction xs) auto

lemma mset_insert_by: "mset (insert_by p x xs) = add_mset x (mset xs)"
  by (induction xs) auto

lemma sorted_insert_by:
  assumes total: "\<And>a b. p a b \<or> p b a" and trans: "\<And>a b c. p a b \<Longrightarrow> p b c \<Longrightarrow> p a c"
  shows "sorted_wrt p xs \<Longrightarrow> sorted_wrt p (insert_by p x xs)"
proof (induction xs)
  case Nil
  show ?case by simp
next
  case (Cons y ys)
  show ?case
  proof (cases "p x y")
    case True
    have "\<forall>z \<in> set ys. p x z"
      using Cons.prems True trans by auto
    with True Cons.prems show ?thesis by simp
  next
    case False
    then have "p y x" using total by blast
    with False Cons show ?thesis by (simp add: set_insert_by)
  qed
qed

lemma set_order_by: "set (order_by p xs) = set xs"
  by (induction xs) (simp_all add: order_by_def set_insert_by)

lemma mset_order_by: "mset (order_by p xs) = mset xs"
  by (induction xs) (simp_all add: order_by_def mset_insert_by)

lemma length_order_by: "length (order_by p xs) = length xs"
  using mset_order_by[of p xs] by (metis size_mset)

lemma sorted_order_by:
  assumes "\<And>a b. p a b \<or> p b a" and "\<And>a b c. p a b \<Longrightarrow> p b c \<Longrightarrow> p a c"
  shows "sorted_wrt p (order_by p xs)"
proof (induction xs)
  case Nil
  show ?case by (simp add: order_by_def)
next
  case (Cons x xs)
  have "order_by p (x # xs) = insert_by p x (order_by p xs)"
    by (simp add: order_by_def)
  with Cons sorted_insert_by[of p "order_by p xs" x, OF assms] show ?case by simp
qed


lemma fetchone_sorted:
  assumes "fetchone xs = Some x" and "sorted_wrt p xs"
  shows "x \<in> set xs \<and> (\<forall>y \<in> set (tl xs). p x y)"
  using assms by (cases xs) (auto simp: fetchone_def)

section \<open>The claim of a job by a worker\<close>

lemma acquire_rows:
  "fst (acquire_job_lock rows jid) =
     map (\<lambda>r. if job_id r = jid \<and> state r = PENDING then r\<lparr>state := PROCESSING\<rparr> else r) rows"
  by (simp add: acquire_job_lock_def sql_update_def)

lemma acquire_ok:
  "snd (acquire_job_lock rows jid) \<longleftrightarrow> (\<exists>r \<in> set rows. job_id r = jid \<and> state r = PENDING)"
  by (simp add: acquire_job_lock_def sql_update_def filter_empty_conv)

lemma acquire_fail_same:
  "\<not> snd (acquire_job_lock rows jid) \<Longrightarrow> fst (acquire_job_lock rows jid) = rows"
  unfolding acquire_ok acquire_rows by (rule map_idI) simp

lemma acquire_ids: "map job_id (fst (acquire_job_lock rows jid)) = map job_id rows"
  by (simp add: acquire_rows)

lemma acquire_row_cases:
  assumes "r \<in> set (fst (acquire_job_lock rows jid))"
  obtains r0 where "r0 \<in> set rows" and "job_id r0 = jid" and "state r0 = PENDING"
      and "r = r0\<lparr>state := PROCESSING\<rparr>"
  | "r \<in> set rows" and "\<not> (job_id r = jid \<and> state r = PENDING)"
proof -
  from assms obtain r0 where r0: "r0 \<in> set rows"
    and r: "r = (if job_id r0 = jid \<and> state r0 = PENDING then r0\<lparr>state := PROCESSING\<rparr> else r0)"
    unfolding acquire_rows by (auto simp: image_iff)
  show ?thesis
  proof (cases "job_id r0 = jid \<and> state r0 = PENDING")
    case True
    with r r0 that(1) show ?thesis by simp
  next
    case False
    with r r0 that(2) show ?thesis by simp
  qed
qed

lemma acquire_keeps_not_pending:
  assumes "\<forall>r \<in> set rows. job_id r = jid \<longrightarrow> state r \<noteq> PENDING"
  shows "\<forall>r \<in> set (fst (acquire_job_lock rows other)). job_id r = jid \<longrightarrow> state r \<noteq> PENDING"
proof
  fix r assume "r \<in> set (fst (acquire_job_lock rows other))"
  then show "job_id r = jid \<longrightarrow> state r \<noteq> PENDING"
  proof (cases rule: acquire_row_cases)
    case (1 r0)
    then show ?thesis by simp
  next
    case 2
    with assms show ?thesis by blast
  qed
qed

lemma acquire_leaves_none_pending:
  "\<forall>r \<in> set (fst (acquire_job_lock rows jid)). job_id r = jid \<longrightarrow> state r \<noteq> PENDING"
proof
  fix r assume "r \<in> set (fst (acquire_job_lock rows jid))"
  then show "job_id r = jid \<longrightarrow> state r \<noteq> PENDING"
    by (cases rule: acquire_row_cases) simp_all
qed

lemma acquire_many_keeps_not_pending:
  assumes "\<forall>r \<in> set rows. job_id r = jid \<longrightarrow> state r \<noteq> PENDING"
  shows "\<forall>r \<in> set (foldl (\<lambda>t j. fst (acquire_job_lock t j)) rows jids).
           job_id r = jid \<longrightarrow> state r \<noteq> PENDING"
  using assms
proof (induction jids arbitrary: rows)
  case Nil
  then show ?case by simp
next
  case (Cons j jids)
  from acquire_keeps_not_pending[OF Cons.prems, of j]
  show ?case by (simp add: Cons.IH)
qed

text \<open>
  C3. \<^verbatim>\<open>Worker._acquire_job_lock\<close> is the conditional update of the state to processing
  where the id matches and the state is pending. It succeeds exactly when a stored record
  with that id is pending; a failed claim leaves the table as it was; a successful one
  changes only the state of that record; and after it, whatever further claims of any jobs
  are committed (\<open>jids\<close>, in the order the database serialises them), a claim of the same
  job fails, since no claim makes a record pending again.
\<close>

theorem acquire_job_lock_claims_once:
  "(snd (acquire_job_lock rows jid) \<longleftrightarrow> (\<exists>r \<in> set rows. job_id r = jid \<and> state r = PENDING))
   \<and> (\<not> snd (acquire_job_lock rows jid) \<longrightarrow> fst (acquire_job_lock rows jid) = rows)
   \<and> fst (acquire_job_lock rows jid) =
       map (\<lambda>r. if job_id r = jid \<and> state r = PENDING then r\<lparr>state := PROCESSING\<rparr> else r) rows
   \<and> \<not> snd (acquire_job_lock
            (foldl (\<lambda>t j. fst (acquire_job_lock t j)) (fst (acquire_job_lock rows jid)) jids) jid)"
proof (intro conjI)
  show "snd (acquire_job_lock rows jid) \<longleftrightarrow> (\<exists>r \<in> set rows. job_id r = jid \<and> state r = PENDING)"
    by (rule acquire_ok)
  show "\<not> snd (acquire_job_lock rows jid) \<longrightarrow> fst (acquire_job_lock rows jid) = rows"
    using acquire_fail_same by blast
  show "fst (acquire_job_lock rows jid) =
       map (\<lambda>r. if job_id r = jid \<and> state r = PENDING then r\<lparr>state := PROCESSING\<rparr> else r) rows"
    by (rule acquire_rows)
  show "\<not> snd (acquire_job_lock
            (foldl (\<lambda>t j. fst (acquire_job_lock t j)) (fst (acquire_job_lock rows jid)) jids) jid)"
    using acquire_many_keeps_not_pending[OF acquire_leaves_none_pending, of rows jid jids]
    by (simp add: acquire_ok)
qed

theorem acquire_job_lock_claims_once_witness:
  "snd (acquire_job_lock [sample_job] ''test_job_fail'')
   \<and> fst (acquire_job_lock [sample_job] ''test_job_fail'') = [sample_job\<lparr>state := PROCESSING\<rparr>]
   \<and> \<not> snd (acquire_job_lock (fst (acquire_job_lock [sample_job] ''test_job_fail''))
             ''test_job_fail'')
   \<and> \<not> snd (acquire_job_lock [sample_job] ''other'')
   \<and> fst (acquire_job_lock [sample_job] ''other'') = [sample_job]"
  using acquire_job_lock_claims_once [of "[sample_job]" "''test_job_fail''" "[]"]
    acquire_job_lock_claims_once [of "[sample_job]" "''other''" "[]"]
  by (simp add: sample_job_def sample_data_def new_job_def acquire_job_lock_def sql_update_def)

section \<open>The release of a job whose retry is due\<close>

lemma reset_retryable_rows:
  "fst (reset_retryable_job_to_pending now rows jid) =
     map (\<lambda>r. if job_id r = jid \<and> retry_due now r
               then r\<lparr>state := PENDING, next_retry_at := None, updated_at := now\<rparr> else r) rows"
  by (simp add: reset_retryable_job_to_pending_def sql_update_def)

lemma reset_retryable_ok:
  "snd (reset_retryable_job_to_pending now rows jid) \<longleftrightarrow>
     (\<exists>r \<in> set rows. job_id r = jid \<and> retry_due now r)"
  by (simp add: reset_retryable_job_to_pending_def sql_update_def filter_empty_conv)

lemma reset_retryable_fail_same:
  "\<not> snd (reset_retryable_job_to_pending now rows jid) \<Longrightarrow>
     fst (reset_retryable_job_to_pending now rows jid) = rows"
  unfolding reset_retryable_ok reset_retryable_rows by (rule map_idI) (simp, blast)

lemma retry_due_iff:
  "retry_due now r \<longleftrightarrow> state r = FAILED \<and> (\<exists>t. next_retry_at r = Some t \<and> t \<le> now)"
  by (cases "next_retry_at r") (simp_all add: retry_due_def)

text \<open>
  C5. \<^verbatim>\<open>Storage.reset_retryable_job_to_pending\<close> returns True exactly when a record with
  the id is failed with a retry time that is set and not after \<open>now\<close> (in the order of the
  stored texts); it then sets exactly such records to pending with the retry time cleared
  (and \<^verbatim>\<open>updated_at\<close> set to \<open>now\<close>) and leaves every other record as it was; when it
  returns False the table is unchanged.
\<close>

theorem reset_retryable_job_to_pending_cas:
  "(snd (reset_retryable_job_to_pending now rows jid) \<longleftrightarrow>
      (\<exists>r \<in> set rows. job_id r = jid \<and> state r = FAILED
         \<and> (\<exists>t. next_retry_at r = Some t \<and> t \<le> now)))
   \<and> fst (reset_retryable_job_to_pending now rows jid) =
       map (\<lambda>r. if job_id r = jid \<and> state r = FAILED
                    \<and> (\<exists>t. next_retry_at r = Some t \<and> t \<le> now)
                 then r\<lparr>state := PENDING, next_retry_at := None, updated_at := now\<rparr> else r) rows
   \<and> (\<not> snd (reset_retryable_job_to_pending now rows jid) \<longrightarrow>
        fst (reset_retryable_job_to_pending now rows jid) = rows)"
proof (intro conjI)
  show "snd (reset_retryable_job_to_pending now rows jid) \<longleftrightarrow>
      (\<exists>r \<in> set rows. job_id r = jid \<and> state r = FAILED
         \<and> (\<exists>t. next_retry_at r = Some t \<and> t \<le> now))"
    by (simp add: reset_retryable_ok retry_due_iff)
  show "fst (reset_retryable_job_to_pending now rows jid) =
       map (\<lambda>r. if job_id r = jid \<and> state r = FAILED
                    \<and> (\<exists>t. next_retry_at r = Some t \<and> t \<le> now)
                 then r\<lparr>state := PENDING, next_retry_at := None, updated_at := now\<rparr> else r) rows"
    by (simp add: reset_retryable_rows retry_due_iff)
  show "\<not> snd (reset_retryable_job_to_pending now rows jid) \<longrightarrow>
        fst (reset_retryable_job_to_pending now rows jid) = rows"
    using reset_retryable_fail_same by blast
qed

theorem reset_retryable_job_to_pending_cas_witness:
  "reset_retryable_job_to_pending ''2026-01-01T00:00:03Z'' [sample_failed_job] ''test_job_fail'' =
     ([sample_failed_job\<lparr>state := PENDING, next_retry_at := None,
                          updated_at := ''2026-01-01T00:00:03Z''\<rparr>], True)
   \<and> reset_retryable_job_to_pending ''2026-01-01T00:00:01Z'' [sample_failed_job] ''test_job_fail'' =
       ([sample_failed_job], False)
   \<and> reset_retryable_job_to_pending ''2026-01-01T00:00:03Z'' [sample_job] ''test_job_fail'' =
       ([sample_job], False)"
  using reset_retryable_job_to_pending_cas
      [of "''2026-01-01T00:00:03Z''" "[sample_failed_job]" "''test_job_fail''"]
    reset_retryable_job_to_pending_cas
      [of "''2026-01-01T00:00:01Z''" "[sample_failed_job]" "''test_job_fail''"]
    reset_retryable_job_to_pending_cas
      [of "''2026-01-01T00:00:03Z''" "[sample_job]" "''test_job_fail''"]
  by (simp add: sample_failed_job_def sample_job_def sample_data_def new_job_def
      reset_retryable_job_to_pending_def sql_update_def retry_due_def)

section \<open>Reading and writing one record\<close>

lemma get_job_Nil: "get_job [] jid = None"
  by (simp add: get_job_def fetchone_def)

lemma get_job_Cons:
  "get_job (r # rows) jid = (if job_id r = jid then Some r else get_job rows jid)"
  by (simp add: get_job_def fetchone_def)

lemma get_job_SomeD:
  "get_job rows jid = Some job \<Longrightarrow> job \<in> set rows \<and> job_id job = jid"
  by (induction rows) (simp_all add: get_job_Nil get_job_Cons split: if_splits)

lemma get_job_None_iff: "get_job rows jid = None \<longleftrightarrow> jid \<notin> job_id ` set rows"
  by (induction rows) (auto simp: get_job_Nil get_job_Cons)

lemma update_job_rows:
  "fst (update_job rows job) =
     map (\<lambda>r. if job_id r = job_id job then write_columns job r else r) rows"
  by (simp add: update_job_def sql_update_def)

lemma write_columns_same:
  "job_id r = job_id job \<Longrightarrow> created_at r = created_at job \<Longrightarrow> write_columns job r = job"
  by (simp add: write_columns_def)

lemma write_columns_fields:
  "job_id (write_columns job r) = job_id r"
  "created_at (write_columns job r) = created_at r"
  "state (write_columns job r) = state job"
  "attempts (write_columns job r) = attempts job"
  "error (write_columns job r) = error job"
  "next_retry_at (write_columns job r) = next_retry_at job"
  by (simp_all add: write_columns_def)

lemma get_job_update_job:
  assumes "get_job rows (job_id j) = Some job" and "created_at j = created_at job"
  shows "get_job (fst (update_job rows j)) (job_id j) = Some j"
  using assms
proof (induction rows)
  case Nil
  then show ?case by (simp add: get_job_Nil)
next
  case (Cons r rows)
  show ?case
  proof (cases "job_id r = job_id j")
    case True
    with Cons.prems have "r = job" by (simp add: get_job_Cons)
    with True Cons.prems(2) have "write_columns j r = j"
      by (simp add: write_columns_same)
    with True show ?thesis by (simp add: update_job_rows get_job_Cons)
  next
    case False
    with Cons.prems have "get_job rows (job_id j) = Some job" by (simp add: get_job_Cons)
    from Cons.IH[OF this Cons.prems(2)] False show ?thesis
      by (simp add: update_job_rows get_job_Cons)
  qed
qed

section \<open>Finalization of an execution\<close>

lemma process_job_absent:
  "get_job rows (job_id job0) = None \<Longrightarrow>
     process_job cfg run pf clk rows job0 = (rows, Inr False)"
  by (simp add: process_job_def)

lemma process_job_success:
  assumes "get_job rows (job_id job0) = Some job" and "state job = PROCESSING"
    and "execute (default_timeout cfg) job (run job) = (True, out, err)"
  shows "process_job cfg run pf clk rows job0 =
     (fst (update_job rows (update_state (job\<lparr>output_text := Some out\<rparr>) COMPLETED None (clk 1))),
      Inr True)"
  using assms by (simp add: process_job_def)

text \<open>
  After the increment the record is still in state processing, so neither
  \<^verbatim>\<open>should_retry\<close> nor \<^verbatim>\<open>should_move_to_dlq\<close> holds, whatever \<^verbatim>\<open>attempts\<close> and
  \<^verbatim>\<open>max_retries\<close> are, and the last branch of \<^verbatim>\<open>process_job\<close> writes the record.
\<close>

lemma no_policy_while_processing:
  "state job = PROCESSING \<Longrightarrow>
     \<not> should_retry (increment_attempts (job\<lparr>output_text := Some out\<rparr>) now)
     \<and> \<not> should_move_to_dlq (increment_attempts (job\<lparr>output_text := Some out\<rparr>) now)"
  by (simp add: should_retry_def should_move_to_dlq_def increment_attempts_def)

lemma process_job_failure:
  assumes "get_job rows (job_id job0) = Some job" and "state job = PROCESSING"
    and "execute (default_timeout cfg) job (run job) = (False, out, err)"
  shows "process_job cfg run pf clk rows job0 =
     (fst (update_job rows
        (update_state (increment_attempts (job\<lparr>output_text := Some out\<rparr>) (clk 1)) FAILED err (clk 2))),
      Inr False)"
  using assms no_policy_while_processing[of job out "clk 1"] by (simp add: process_job_def)

lemma update_state_fields:
  "job_id (update_state job s e now) = job_id job"
  "created_at (update_state job s e now) = created_at job"
  "state (update_state job s e now) = s"
  "attempts (update_state job s e now) = attempts job"
  "next_retry_at (update_state job s e now) = next_retry_at job"
  "error (update_state job s e now) = (if truthy_str e then e else error job)"
  by (simp_all add: update_state_def Let_def)

text \<open>
  C9. \<^verbatim>\<open>Job.update_state\<close> called with \<^verbatim>\<open>error=None\<close> leaves the error field as it was.
  So when \<^verbatim>\<open>process_job\<close> finalizes a claimed job whose execution succeeded, the stored
  record becomes the old record with only the output, the state (completed) and
  \<^verbatim>\<open>updated_at\<close> changed: an error text left by an earlier failed attempt stays.
\<close>

theorem update_state_without_error_keeps_error:
  "error (update_state job new_state None now) = error job
   \<and> (get_job rows (job_id job0) = Some job \<and> state job = PROCESSING
        \<and> fst (execute (default_timeout cfg) job (run job)) \<longrightarrow>
      get_job (fst (process_job cfg run pf clk rows job0)) (job_id job0) =
        Some (job\<lparr>output_text := Some (fst (snd (execute (default_timeout cfg) job (run job)))),
                  state := COMPLETED, updated_at := clk 1\<rparr>)
      \<and> map_option error (get_job (fst (process_job cfg run pf clk rows job0)) (job_id job0))
          = Some (error job)
      \<and> snd (process_job cfg run pf clk rows job0) = Inr True)"
proof (intro conjI impI)
  show "error (update_state job new_state None now) = error job"
    by (simp add: update_state_def Let_def truthy_str_def)
next
  assume a: "get_job rows (job_id job0) = Some job \<and> state job = PROCESSING
        \<and> fst (execute (default_timeout cfg) job (run job))"
  obtain ok out err where ex: "execute (default_timeout cfg) job (run job) = (ok, out, err)"
    by (cases "execute (default_timeout cfg) job (run job)") auto
  with a have ok: "ok" by simp
  define j where "j = update_state (job\<lparr>output_text := Some out\<rparr>) COMPLETED None (clk 1)"
  have pj: "process_job cfg run pf clk rows job0 = (fst (update_job rows j), Inr True)"
    using process_job_success[of rows job0 job cfg run out err pf clk] a ex ok
    by (simp add: j_def)
  have jid: "job_id j = job_id job0"
    using a get_job_SomeD[of rows "job_id job0" job] by (simp add: j_def update_state_def Let_def)
  have jeq: "j = job\<lparr>output_text := Some out, state := COMPLETED, updated_at := clk 1\<rparr>"
    by (simp add: j_def update_state_def Let_def truthy_str_def)
  have "get_job (fst (update_job rows j)) (job_id j) = Some j"
    by (rule get_job_update_job[of rows j job]) (use a jid in \<open>simp_all add: jeq\<close>)
  with pj jid jeq ex
  show "get_job (fst (process_job cfg run pf clk rows job0)) (job_id job0) =
        Some (job\<lparr>output_text := Some (fst (snd (execute (default_timeout cfg) job (run job)))),
                  state := COMPLETED, updated_at := clk 1\<rparr>)"
    by simp
  then show "map_option error (get_job (fst (process_job cfg run pf clk rows job0)) (job_id job0))
          = Some (error job)"
    by simp
  show "snd (process_job cfg run pf clk rows job0) = Inr True"
    using pj by simp
qed

theorem update_state_without_error_keeps_error_witness:
  "get_job [sample_retried_job] (job_id sample_retried_job) = Some sample_retried_job
   \<and> state sample_retried_job = PROCESSING
   \<and> fst (execute (default_timeout default_config) sample_retried_job (Exited 0 ''ok'' []))
   \<and> get_job (fst (process_job default_config (\<lambda>j. Exited 0 ''ok'' []) sample_platform
          sample_clock [sample_retried_job] sample_retried_job)) (job_id sample_retried_job) =
        Some (sample_retried_job\<lparr>output_text := Some ''ok'', state := COMPLETED,
                updated_at := ''2026-01-01T00:00:09Z''\<rparr>)
   \<and> map_option error (get_job (fst (process_job default_config (\<lambda>j. Exited 0 ''ok'' [])
          sample_platform sample_clock [sample_retried_job] sample_retried_job))
          (job_id sample_retried_job)) = Some (Some ''Command failed with exit code 1'')"
  using update_state_without_error_keeps_error
    [of sample_retried_job COMPLETED "''t''" "[sample_retried_job]" sample_retried_job
        default_config "\<lambda>j. Exited 0 ''ok'' []" sample_platform sample_clock]
  by (simp add: sample_retried_job_def sample_job_def sample_data_def new_job_def default_config_def
      sample_clock_def get_job_def fetchone_def execute_def)

section \<open>The executor on a timeout\<close>

lemma digit_char_value:
  assumes "d < 10"
  shows "of_char (digit_char d) = (48 + d :: nat)"
proof -
  from assms consider "d = 0" | "d = 1" | "d = 2" | "d = 3" | "d = 4" | "d = 5" | "d = 6"
    | "d = 7" | "d = 8" | "d = 9"
    by atomize_elim presburger
  then show ?thesis
    by cases (simp_all add: digit_char_def)
qed

lemma decimal_value_snoc:
  "decimal_value (s @ [c]) = 10 * decimal_value s + (of_char c - 48)"
  by (simp add: decimal_value_def)

lemma decimal_value_str_nat: "decimal_value (str_nat n) = n"
proof (induction n rule: str_nat.induct)
  case (1 n)
  show ?case
  proof (cases "n < 10")
    case True
    then have "str_nat n = [digit_char n]" by (simp add: str_nat.simps)
    with True show ?thesis by (simp add: decimal_value_def digit_char_value)
  next
    case False
    then have "str_nat n = str_nat (n div 10) @ [digit_char (n mod 10)]"
      by (subst str_nat.simps) simp
    with 1 False show ?thesis
      by (simp add: decimal_value_snoc digit_char_value)
  qed
qed

text \<open>
  C7, as the code has it. When the child process exceeds the time limit, \<^verbatim>\<open>execute\<close>
  returns False, the empty output (what the process wrote so far is dropped) and the error
  text "Job timed out after T seconds", where T is \<^verbatim>\<open>job.timeout\<close> when that is set and
  not 0 and the executor's default otherwise, printed in decimal. An exception of the
  body is returned as (False, "", its text) as well, so nothing is raised to the caller.
\<close>

theorem execute_on_timeout:
  "execute self_timeout job (TimeoutExpired so se) =
     (False, [], Some (''Job timed out after ''
        @ str_timeout (case timeout job of
                         None \<Rightarrow> self_timeout
                       | Some t \<Rightarrow> if t = 0 then self_timeout else Some t)
        @ '' seconds''))
   \<and> (\<forall>t \<ge> 0. decimal_value (str_timeout (Some t)) = nat t)
   \<and> execute self_timeout job (Raised msg) = (False, [], Some msg)"
proof (intro conjI allI impI)
  show "execute self_timeout job (TimeoutExpired so se) =
     (False, [], Some (''Job timed out after ''
        @ str_timeout (case timeout job of
                         None \<Rightarrow> self_timeout
                       | Some t \<Rightarrow> if t = 0 then self_timeout else Some t)
        @ '' seconds''))"
    by (simp add: execute_def timeout_or_def)
  show "decimal_value (str_timeout (Some t)) = nat t" if "0 \<le> t" for t
    using that by (simp add: str_timeout_def str_int_def decimal_value_str_nat)
  show "execute self_timeout job (Raised msg) = (False, [], Some msg)"
    by (simp add: execute_def)
qed

theorem execute_on_timeout_witness:
  "execute (Some 300) (sample_job\<lparr>timeout := Some 1\<rparr>) (TimeoutExpired ''partial'' []) =
     (False, [], Some ''Job timed out after 1 seconds'')
   \<and> (0::int) \<le> 300 \<and> decimal_value (str_timeout (Some 300)) = 300
   \<and> execute (Some 300) (sample_job\<lparr>timeout := Some 1\<rparr>) (Raised ''No such file'') =
       (False, [], Some ''No such file'')"
  using execute_on_timeout
    [of "Some 300" "sample_job\<lparr>timeout := Some 1\<rparr>" "''partial''" "[]" "''No such file''"]
  by (simp add: str_timeout_def str_int_def str_nat.simps digit_char_def decimal_value_def)

text \<open>
  C7 as stated fails: the output collected before the timeout (here "partial") is not
  returned, and a job timeout of 0, although set, gives way to the default of 300 seconds.
\<close>

theorem execute_timeout_counterexample:
  "fst (snd (execute (Some 300) (sample_job\<lparr>timeout := Some 1\<rparr>) (TimeoutExpired ''partial'' [])))
     \<noteq> ''partial''
   \<and> execute (Some 300) (sample_job\<lparr>timeout := Some 1\<rparr>) (TimeoutExpired ''partial'' []) =
       (False, [], Some ''Job timed out after 1 seconds'')
   \<and> execute (Some 300) (sample_job\<lparr>timeout := Some 0\<rparr>) (TimeoutExpired [] []) =
       (False, [], Some ''Job timed out after 300 seconds'')"
  by (simp add: execute_def timeout_or_def str_timeout_def str_int_def str_nat.simps digit_char_def)

section \<open>The backoff delay\<close>

lemma calculate_retry_delay_int:
  "backoff_base cfg = PyInt b \<Longrightarrow> calculate_retry_delay pf cfg n = Inr (b ^ n)"
  by (simp add: calculate_retry_delay_def)

lemma calculate_retry_delay_float:
  "backoff_base cfg = PyFloat x \<Longrightarrow>
     calculate_retry_delay pf cfg n =
       (case float_pow pf x n of Inl e \<Rightarrow> Inl e | Inr y \<Rightarrow> int_of_float y)"
  by (simp add: calculate_retry_delay_def)

lemma int_power_exceeds:
  assumes "2 \<le> (b::int)"
  shows "int n < b ^ n"
proof -
  have "int n < 2 ^ n" by simp
  also have "(2::int) ^ n \<le> b ^ n"
    using assms by (intro power_mono) simp_all
  finally show ?thesis .
qed

text \<open>
  C4, as the code has it. The delay is \<^verbatim>\<open>int(base ** attempts)\<close>, with no minimum and no
  cap. For an integer base (the default 2) it is exactly the power base ^ attempts, which
  is its own floor; when the base is at least 1 it is at least 1 second and does not
  decrease from one failure of a job to the next (the attempts grow by one with
  \<^verbatim>\<open>increment_attempts\<close>); when the base is at least 2 it exceeds the number of attempts, so
  no bound holds for all attempts. For a float base, which is what \<^verbatim>\<open>config set\<close> stores,
  it is the float power of the platform truncated toward zero, and when that power
  overflows (or is not finite) the exception is raised instead of a delay.
\<close>

theorem calculate_retry_delay_by_base:
  "(backoff_base cfg = PyInt b \<longrightarrow>
      calculate_retry_delay pf cfg n = Inr (b ^ n)
      \<and> calculate_retry_delay pf cfg n = Inr \<lfloor>real_of_int b ^ n\<rfloor>
      \<and> (1 \<le> b \<longrightarrow>
           1 \<le> b ^ n \<and> (\<forall>m \<le> n. b ^ m \<le> b ^ n)
           \<and> calculate_retry_delay pf cfg (attempts job) = Inr (b ^ attempts job)
           \<and> calculate_retry_delay pf cfg (attempts (increment_attempts job now))
               = Inr (b ^ (attempts job + 1))
           \<and> b ^ attempts job \<le> b ^ (attempts job + 1))
      \<and> (2 \<le> b \<longrightarrow> int n < b ^ n))
   \<and> (backoff_base cfg = PyFloat x \<longrightarrow>
      (\<forall>y. float_pow pf x n = Inr (Finite y) \<longrightarrow>
           calculate_retry_delay pf cfg n = Inr (if 0 \<le> y then \<lfloor>y\<rfloor> else \<lceil>y\<rceil>))
      \<and> (\<forall>e. float_pow pf x n = Inl e \<longrightarrow> calculate_retry_delay pf cfg n = Inl e)
      \<and> (float_pow pf x n = Inr PosInf \<or> float_pow pf x n = Inr NegInf \<longrightarrow>
           calculate_retry_delay pf cfg n = Inl OverflowError)
      \<and> (float_pow pf x n = Inr NaN \<longrightarrow> calculate_retry_delay pf cfg n = Inl ValueError))
   \<and> backoff_base (config_set_backoff_base cfg x) = PyFloat x"
proof (intro conjI)
  show "backoff_base cfg = PyInt b \<longrightarrow>
      calculate_retry_delay pf cfg n = Inr (b ^ n)
      \<and> calculate_retry_delay pf cfg n = Inr \<lfloor>real_of_int b ^ n\<rfloor>
      \<and> (1 \<le> b \<longrightarrow>
           1 \<le> b ^ n \<and> (\<forall>m \<le> n. b ^ m \<le> b ^ n)
           \<and> calculate_retry_delay pf cfg (attempts job) = Inr (b ^ attempts job)
           \<and> calculate_retry_delay pf cfg (attempts (increment_attempts job now))
               = Inr (b ^ (attempts job + 1))
           \<and> b ^ attempts job \<le> b ^ (attempts job + 1))
      \<and> (2 \<le> b \<longrightarrow> int n < b ^ n)"
  proof
    assume base: "backoff_base cfg = PyInt b"
    have fl: "\<lfloor>real_of_int b ^ n\<rfloor> = b ^ n"
    proof -
      have "real_of_int b ^ n = real_of_int (b ^ n)" by simp
      then show ?thesis by (simp only: floor_of_int)
    qed
    have d: "calculate_retry_delay pf cfg k = Inr (b ^ k)" for k
      using base by (rule calculate_retry_delay_int)
    have mono: "b ^ m \<le> b ^ k" if "1 \<le> b" "m \<le> k" for m k
      using that by (simp add: power_increasing)
    have one: "1 \<le> b ^ n" if "1 \<le> b"
      using that by simp
    have inc: "attempts (increment_attempts job now) = attempts job + 1"
      by (simp add: increment_attempts_def)
    have big: "int n < b ^ n" if "2 \<le> b"
      using that by (rule int_power_exceeds)
    from d fl mono one inc big show "calculate_retry_delay pf cfg n = Inr (b ^ n)
      \<and> calculate_retry_delay pf cfg n = Inr \<lfloor>real_of_int b ^ n\<rfloor>
      \<and> (1 \<le> b \<longrightarrow>
           1 \<le> b ^ n \<and> (\<forall>m \<le> n. b ^ m \<le> b ^ n)
           \<and> calculate_retry_delay pf cfg (attempts job) = Inr (b ^ attempts job)
           \<and> calculate_retry_delay pf cfg (attempts (increment_attempts job now))
               = Inr (b ^ (attempts job + 1))
           \<and> b ^ attempts job \<le> b ^ (attempts job + 1))
      \<and> (2 \<le> b \<longrightarrow> int n < b ^ n)"
      by simp
  qed
  show "backoff_base cfg = PyFloat x \<longrightarrow>
      (\<forall>y. float_pow pf x n = Inr (Finite y) \<longrightarrow>
           calculate_retry_delay pf cfg n = Inr (if 0 \<le> y then \<lfloor>y\<rfloor> else \<lceil>y\<rceil>))
      \<and> (\<forall>e. float_pow pf x n = Inl e \<longrightarrow> calculate_retry_delay pf cfg n = Inl e)
      \<and> (float_pow pf x n = Inr PosInf \<or> float_pow pf x n = Inr NegInf \<longrightarrow>
           calculate_retry_delay pf cfg n = Inl OverflowError)
      \<and> (float_pow pf x n = Inr NaN \<longrightarrow> calculate_retry_delay pf cfg n = Inl ValueError)"
    by (auto simp: calculate_retry_delay_float int_of_float_def)
  show "backoff_base (config_set_backoff_base cfg x) = PyFloat x"
    by (simp add: config_set_backoff_base_def)
qed

theorem calculate_retry_delay_by_base_witness:
  "backoff_base default_config = PyInt 2
   \<and> calculate_retry_delay sample_platform default_config 3 = Inr 8
   \<and> calculate_retry_delay sample_platform default_config 3 = Inr \<lfloor>(2::real) ^ 3\<rfloor>
   \<and> (1::int) \<le> 2 \<and> (2::int) ^ 2 \<le> 2 ^ 3 \<and> (2::int) \<le> 2 \<and> int 3 < 2 ^ 3
   \<and> calculate_retry_delay sample_platform default_config
        (attempts (increment_attempts sample_failed_job ''2026-01-01T00:00:09Z'')) = Inr 4
   \<and> backoff_base (config_set_backoff_base default_config (Finite 3)) = PyFloat (Finite 3)
   \<and> float_pow rounding_platform (Finite 3) 40 = Inr (Finite 12157665459056928768)
   \<and> calculate_retry_delay rounding_platform
        (config_set_backoff_base default_config (Finite 3)) 40 = Inr 12157665459056928768
   \<and> float_pow sample_platform (Finite 2) 1024 = Inl OverflowError
   \<and> calculate_retry_delay sample_platform
        (config_set_backoff_base default_config (Finite 2)) 1024 = Inl OverflowError
   \<and> calculate_retry_delay (sample_platform\<lparr>float_pow := \<lambda>x n. Inr PosInf\<rparr>)
        (config_set_backoff_base default_config PosInf) 1 = Inl OverflowError
   \<and> calculate_retry_delay (sample_platform\<lparr>float_pow := \<lambda>x n. Inr NaN\<rparr>)
        (config_set_backoff_base default_config NaN) 1 = Inl ValueError"
proof -
  have b: "backoff_base default_config = PyInt 2" by (simp add: default_config_def)
  have a: "attempts sample_failed_job = 1"
    by (simp add: sample_failed_job_def)
  note i = calculate_retry_delay_by_base [of default_config 2 sample_platform 3
      sample_failed_job "''2026-01-01T00:00:09Z''" "Finite 3"]
  from i b a have 1: "calculate_retry_delay sample_platform default_config 3 = Inr 8
      \<and> calculate_retry_delay sample_platform default_config 3 = Inr \<lfloor>(2::real) ^ 3\<rfloor>
      \<and> calculate_retry_delay sample_platform default_config
        (attempts (increment_attempts sample_failed_job ''2026-01-01T00:00:09Z'')) = Inr 4"
    by simp
  have f3: "backoff_base (config_set_backoff_base default_config (Finite 3)) = PyFloat (Finite 3)"
    by (simp add: config_set_backoff_base_def)
  have p3: "float_pow rounding_platform (Finite 3) 40 = Inr (Finite 12157665459056928768)"
    by (simp add: rounding_platform_def)
  from calculate_retry_delay_by_base
      [of "config_set_backoff_base default_config (Finite 3)" 2 rounding_platform 40
        sample_failed_job "''2026-01-01T00:00:09Z''" "Finite 3"] f3 p3
  have 2: "calculate_retry_delay rounding_platform
        (config_set_backoff_base default_config (Finite 3)) 40 = Inr 12157665459056928768"
    by simp
  have f2: "backoff_base (config_set_backoff_base default_config (Finite 2)) = PyFloat (Finite 2)"
    by (simp add: config_set_backoff_base_def)
  have p2: "float_pow sample_platform (Finite 2) 1024 = Inl OverflowError"
    by (simp add: sample_platform_def)
  from calculate_retry_delay_by_base
      [of "config_set_backoff_base default_config (Finite 2)" 2 sample_platform 1024
        sample_failed_job "''2026-01-01T00:00:09Z''" "Finite 2"] f2 p2
  have 3: "calculate_retry_delay sample_platform
        (config_set_backoff_base default_config (Finite 2)) 1024 = Inl OverflowError"
    by simp
  from calculate_retry_delay_by_base
      [of "config_set_backoff_base default_config PosInf" 2
        "sample_platform\<lparr>float_pow := \<lambda>x n. Inr PosInf\<rparr>" 1
        sample_failed_job "''2026-01-01T00:00:09Z''" PosInf]
  have 4: "calculate_retry_delay (sample_platform\<lparr>float_pow := \<lambda>x n. Inr PosInf\<rparr>)
        (config_set_backoff_base default_config PosInf) 1 = Inl OverflowError"
    by (simp add: config_set_backoff_base_def)
  from calculate_retry_delay_by_base
      [of "config_set_backoff_base default_config NaN" 2
        "sample_platform\<lparr>float_pow := \<lambda>x n. Inr NaN\<rparr>" 1
        sample_failed_job "''2026-01-01T00:00:09Z''" NaN]
  have 5: "calculate_retry_delay (sample_platform\<lparr>float_pow := \<lambda>x n. Inr NaN\<rparr>)
        (config_set_backoff_base default_config NaN) 1 = Inl ValueError"
    by (simp add: config_set_backoff_base_def)
  from b 1 f3 p3 2 p2 3 4 5 show ?thesis by simp
qed

text \<open>
  C4 as stated fails. With the default base 2 the delay after 64 attempts is 2^64 seconds,
  beyond one day and beyond any 64-bit sentinel: there is no cap. With base 0 the delay
  after the first failure is 0 seconds, less than 1. With base -2 the delay falls from 4
  to -8 between the second and the third failure. With the float base 3.0 the delay after
  40 attempts is the rounded float power 12157665459056928768, not the floor
  12157665459056928801 of 3^40; and with the float base 2.0 the power at 1024 attempts
  overflows and OverflowError is raised where the claim has a capped delay.
\<close>

theorem calculate_retry_delay_counterexample:
  "calculate_retry_delay sample_platform default_config 64 = Inr 18446744073709551616
   \<and> (86400::int) < 18446744073709551616
   \<and> calculate_retry_delay sample_platform (default_config\<lparr>backoff_base := PyInt 0\<rparr>) 1 = Inr 0
   \<and> calculate_retry_delay sample_platform (default_config\<lparr>backoff_base := PyInt (- 2)\<rparr>) 2
       = Inr 4
   \<and> calculate_retry_delay sample_platform (default_config\<lparr>backoff_base := PyInt (- 2)\<rparr>) 3
       = Inr (- 8)
   \<and> calculate_retry_delay rounding_platform
        (config_set_backoff_base default_config (Finite 3)) 40 = Inr 12157665459056928768
   \<and> \<lfloor>(3::real) ^ 40\<rfloor> = (12157665459056928801::int)
   \<and> calculate_retry_delay sample_platform
        (config_set_backoff_base default_config (Finite 2)) 1024 = Inl OverflowError"
proof -
  have "\<lfloor>(3::real) ^ 40\<rfloor> = \<lfloor>real_of_int (3 ^ 40)\<rfloor>" by simp
  also have "\<dots> = (3::int) ^ 40" by (simp only: floor_of_int)
  also have "\<dots> = 12157665459056928801" by simp
  finally have fl: "\<lfloor>(3::real) ^ 40\<rfloor> = (12157665459056928801::int)" .
  then show ?thesis
    by (simp add: default_config_def calculate_retry_delay_def config_set_backoff_base_def
        rounding_platform_def sample_platform_def int_of_float_def)
qed

section \<open>The dead-letter listing\<close>

lemma created_desc_sorted: "sorted_wrt created_desc (order_by created_desc xs)"
  by (rule sorted_order_by) (auto simp: created_desc_def)

lemma get_dlq_jobs_take:
  "get_dlq_jobs rows = take 100 (order_by created_desc (filter (\<lambda>r. state r = DEAD) rows))"
  by (simp add: get_dlq_jobs_def list_jobs_def sql_limit_def)

lemma length_sample_dead_jobs: "length (sample_dead_jobs n) = n"
  by (simp add: sample_dead_jobs_def)

lemma dead_sample_dead_jobs: "filter (\<lambda>r. state r = DEAD) (sample_dead_jobs n) = sample_dead_jobs n"
  by (simp add: sample_dead_jobs_def filter_map o_def)

text \<open>
  C10. \<^verbatim>\<open>Storage.get_dlq_jobs\<close> is \<^verbatim>\<open>list_jobs\<close> for the state dead with the default limit
  of 100, newest first by \<^verbatim>\<open>created_at\<close>. It returns min(100, number of dead jobs) jobs,
  all of them dead jobs of the table, in descending order of \<^verbatim>\<open>created_at\<close>; the dead jobs
  it leaves out (all but 100 of them) were created no later than every job it returns.
\<close>

theorem get_dlq_jobs_at_most_100:
  "length (get_dlq_jobs rows) = min 100 (length (filter (\<lambda>r. state r = DEAD) rows))
   \<and> length (get_dlq_jobs rows) \<le> 100
   \<and> (\<forall>r \<in> set (get_dlq_jobs rows). r \<in> set rows \<and> state r = DEAD)
   \<and> sorted_wrt (\<lambda>a b. created_at b \<le> created_at a) (get_dlq_jobs rows)
   \<and> (\<exists>omitted.
         mset (get_dlq_jobs rows) + mset omitted = mset (filter (\<lambda>r. state r = DEAD) rows)
         \<and> length omitted = length (filter (\<lambda>r. state r = DEAD) rows) - 100
         \<and> (\<forall>old \<in> set omitted. \<forall>l \<in> set (get_dlq_jobs rows). created_at old \<le> created_at l))"
proof -
  define dead where "dead = filter (\<lambda>r. state r = DEAD) rows"
  define s where "s = order_by created_desc dead"
  have g: "get_dlq_jobs rows = take 100 s"
    by (simp add: get_dlq_jobs_take s_def dead_def)
  have len: "length s = length dead"
    by (simp add: s_def length_order_by)
  have srt: "sorted_wrt created_desc s"
    unfolding s_def by (rule created_desc_sorted)
  have split: "take 100 s @ drop 100 s = s" by simp
  have c1: "length (get_dlq_jobs rows) = min 100 (length dead)"
    using len by (simp add: g min.commute)
  have c3: "\<forall>r \<in> set (get_dlq_jobs rows). r \<in> set rows \<and> state r = DEAD"
  proof
    fix r assume "r \<in> set (get_dlq_jobs rows)"
    then have "r \<in> set s" unfolding g by (rule in_set_takeD)
    then have "r \<in> set dead" by (simp add: s_def set_order_by)
    then show "r \<in> set rows \<and> state r = DEAD" by (simp add: dead_def)
  qed
  have "sorted_wrt created_desc (take 100 s)"
    using srt by (rule sorted_wrt_take)
  then have c4: "sorted_wrt (\<lambda>a b. created_at b \<le> created_at a) (get_dlq_jobs rows)"
    by (simp add: g created_desc_def[abs_def])
  have "sorted_wrt created_desc (take 100 s @ drop 100 s)"
    using srt by simp
  then have older: "\<forall>l \<in> set (take 100 s). \<forall>old \<in> set (drop 100 s). created_desc l old"
    unfolding sorted_wrt_append by blast
  have m: "mset (get_dlq_jobs rows) + mset (drop 100 s) = mset dead"
  proof -
    have "mset (take 100 s) + mset (drop 100 s) = mset s"
      by (simp flip: mset_append)
    also have "\<dots> = mset dead" by (simp add: s_def mset_order_by)
    finally show ?thesis by (simp only: g)
  qed
  have c5: "\<exists>omitted.
         mset (get_dlq_jobs rows) + mset omitted = mset dead
         \<and> length omitted = length dead - 100
         \<and> (\<forall>old \<in> set omitted. \<forall>l \<in> set (get_dlq_jobs rows). created_at old \<le> created_at l)"
  proof (intro exI[of _ "drop 100 s"] conjI)
    show "mset (get_dlq_jobs rows) + mset (drop 100 s) = mset dead" by (rule m)
    show "length (drop 100 s) = length dead - 100" by (simp add: len)
    show "\<forall>old \<in> set (drop 100 s). \<forall>l \<in> set (get_dlq_jobs rows). created_at old \<le> created_at l"
      using older by (simp add: g created_desc_def)
  qed
  from c1 c3 c4 c5 show ?thesis
    unfolding dead_def by simp
qed

theorem get_dlq_jobs_at_most_100_witness:
  "length (filter (\<lambda>r. state r = DEAD) (sample_dead_jobs 101)) = 101
   \<and> length (get_dlq_jobs (sample_dead_jobs 101)) = 100
   \<and> (\<exists>omitted. mset (get_dlq_jobs (sample_dead_jobs 101)) + mset omitted
                   = mset (sample_dead_jobs 101)
               \<and> length omitted = 1)"
proof -
  have "(101::nat) - 100 = 1" by simp
  with get_dlq_jobs_at_most_100 [of "sample_dead_jobs 101"] show ?thesis
    unfolding dead_sample_dead_jobs length_sample_dead_jobs by auto
qed

section \<open>A pass of the worker loop\<close>

text \<open>
  The ways a pass can end. A claimed job can always be reloaded, since the claim keeps the
  ids of the table.
\<close>

lemma work_pass_cases:
  obtains (idle) "work_pass cfg run pf clk rows = (fst (get_next_job clk rows), Idle)"
  | (lost) "work_pass cfg run pf clk rows = (fst (get_next_job clk rows), LostClaim)"
  | (processed) job job' where "snd (get_next_job clk rows) = Some job"
      and "snd (acquire_job_lock (fst (get_next_job clk rows)) (job_id job))"
      and "get_job (fst (acquire_job_lock (fst (get_next_job clk rows)) (job_id job))) (job_id job)
             = Some job'"
      and "work_pass cfg run pf clk rows =
             (fst (process_job cfg run pf (\<lambda>i. clk (i + 3))
                    (fst (acquire_job_lock (fst (get_next_job clk rows)) (job_id job))) job'),
              Processed (job_id job')
                (snd (process_job cfg run pf (\<lambda>i. clk (i + 3))
                    (fst (acquire_job_lock (fst (get_next_job clk rows)) (job_id job))) job')))"
proof -
  obtain rows1 oj where g: "get_next_job clk rows = (rows1, oj)"
    by (cases "get_next_job clk rows") auto
  show ?thesis
  proof (cases oj)
    case None
    with g idle show ?thesis by (simp add: work_pass_def)
  next
    case (Some job)
    obtain rows2 ok where a: "acquire_job_lock rows1 (job_id job) = (rows2, ok)"
      by (cases "acquire_job_lock rows1 (job_id job)") auto
    show ?thesis
    proof (cases ok)
      case False
      with a have "rows2 = rows1" using acquire_fail_same[of rows1 "job_id job"] by simp
      with g Some a False lost show ?thesis by (simp add: work_pass_def)
    next
      case True
      with a have "\<exists>r \<in> set rows1. job_id r = job_id job"
        using acquire_ok[of rows1 "job_id job"] by auto
      then have "job_id job \<in> job_id ` set rows1" by (metis imageI)
      also have "job_id ` set rows1 = job_id ` set rows2"
        using acquire_ids[of rows1 "job_id job"] a by (metis fst_conv set_map)
      finally have "get_job rows2 (job_id job) \<noteq> None" by (simp add: get_job_None_iff)
      then obtain job' where "get_job rows2 (job_id job) = Some job'" by blast
      with g Some a True processed[of job job'] show ?thesis
        by (simp add: work_pass_def split: prod.splits)
    qed
  qed
qed

section \<open>The selection of the next pending job\<close>

lemma ready_pending_iff:
  "ready_pending now r \<longleftrightarrow> state r = PENDING \<and> (\<forall>t. run_at r = Some t \<longrightarrow> t \<le> now)"
  by (cases "run_at r") (simp_all add: ready_pending_def)

lemma priority_order_total: "priority_desc_created_asc a b \<or> priority_desc_created_asc b a"
  unfolding priority_desc_created_asc_def by (metis linorder_le_cases linorder_neqE_linordered_idom)

lemma priority_order_trans:
  "priority_desc_created_asc a b \<Longrightarrow> priority_desc_created_asc b c \<Longrightarrow>
     priority_desc_created_asc a c"
  unfolding priority_desc_created_asc_def by (metis order_less_trans order_trans)

lemma priority_order_refl: "priority_desc_created_asc a a"
  by (simp add: priority_desc_created_asc_def)

lemma get_next_pending_job_eq:
  "get_next_pending_job now rows =
     fetchone (order_by priority_desc_created_asc (filter (ready_pending now) rows))"
  by (cases "order_by priority_desc_created_asc (filter (ready_pending now) rows)")
     (simp_all add: get_next_pending_job_def sql_limit_def fetchone_def)



lemma get_next_pending_job_Some:
  assumes "get_next_pending_job now rows = Some j"
  shows "j \<in> set rows \<and> ready_pending now j
     \<and> (\<forall>r \<in> set rows. ready_pending now r \<longrightarrow> priority_desc_created_asc j r)"
proof -
  define s where "s = order_by priority_desc_created_asc (filter (ready_pending now) rows)"
  have srt: "sorted_wrt priority_desc_created_asc s"
    unfolding s_def using priority_order_total priority_order_trans by (rule sorted_order_by)
  from assms have f: "fetchone s = Some j" by (simp add: get_next_pending_job_eq s_def)
  then obtain rest where s: "s = j # rest" by (cases s) (simp_all add: fetchone_def)
  have sets: "set s = {r \<in> set rows. ready_pending now r}"
    by (simp add: s_def set_order_by)
  have "j \<in> set s" by (simp add: s)
  with sets have 1: "j \<in> set rows \<and> ready_pending now j" by simp
  have 2: "priority_desc_created_asc j r" if "r \<in> set rows" "ready_pending now r" for r
  proof -
    from that sets have "r \<in> set s" by simp
    then have "r = j \<or> r \<in> set rest" by (simp add: s)
    then show ?thesis
      using srt priority_order_refl by (auto simp: s)
  qed
  from 1 2 show ?thesis by blast
qed





section \<open>The retry time is set only on failed records\<close>

lemma update_job_row_cases:
  assumes "r \<in> set (fst (update_job rows job))"
  obtains r0 where "r0 \<in> set rows" and "job_id r0 = job_id job" and "r = write_columns job r0"
  | "r \<in> set rows" and "job_id r \<noteq> job_id job"
proof -
  from assms obtain r0 where r0: "r0 \<in> set rows"
    and r: "r = (if job_id r0 = job_id job then write_columns job r0 else r0)"
    unfolding update_job_rows by (auto simp: image_iff)
  show ?thesis
  proof (cases "job_id r0 = job_id job")
    case True
    with r r0 that(1) show ?thesis by simp
  next
    case False
    with r r0 that(2) show ?thesis by simp
  qed
qed

lemma retry_invariant_update_job:
  assumes "retry_invariant rows" and "next_retry_at job \<noteq> None \<longrightarrow> state job = FAILED"
  shows "retry_invariant (fst (update_job rows job))"
  unfolding retry_invariant_def
proof (intro ballI impI)
  fix r assume "r \<in> set (fst (update_job rows job))" and n: "next_retry_at r \<noteq> None"
  then show "state r = FAILED"
  proof (cases rule: update_job_row_cases)
    case (1 r0)
    with n assms(2) show ?thesis by (simp add: write_columns_fields)
  next
    case 2
    with n assms(1) show ?thesis by (simp add: retry_invariant_def)
  qed
qed

lemma retry_invariant_enqueue:
  assumes "retry_invariant rows"
  shows "retry_invariant (fst (enqueue cfg now rows d))"
  using assms by (simp add: enqueue_def add_job_def retry_invariant_def new_job_def)

lemma retry_invariant_acquire:
  assumes "retry_invariant rows"
  shows "retry_invariant (fst (acquire_job_lock rows jid))"
  unfolding retry_invariant_def
proof (intro ballI impI)
  fix r assume "r \<in> set (fst (acquire_job_lock rows jid))" and n: "next_retry_at r \<noteq> None"
  then show "state r = FAILED"
  proof (cases rule: acquire_row_cases)
    case (1 r0)
    with n have "next_retry_at r0 \<noteq> None" by simp
    with 1 assms show ?thesis by (simp add: retry_invariant_def)
  next
    case 2
    with n assms show ?thesis by (simp add: retry_invariant_def)
  qed
qed

lemma retry_invariant_reset_retryable:
  assumes "retry_invariant rows"
  shows "retry_invariant (fst (reset_retryable_job_to_pending now rows jid))"
  unfolding retry_invariant_def
proof (intro ballI impI)
  fix r assume "r \<in> set (fst (reset_retryable_job_to_pending now rows jid))"
    and n: "next_retry_at r \<noteq> None"
  then obtain r0 where r0: "r0 \<in> set rows"
    and r: "r = (if job_id r0 = jid \<and> retry_due now r0
                 then r0\<lparr>state := PENDING, next_retry_at := None, updated_at := now\<rparr> else r0)"
    unfolding reset_retryable_rows by (auto simp: image_iff)
  show "state r = FAILED"
  proof (cases "job_id r0 = jid \<and> retry_due now r0")
    case True
    with r n show ?thesis by simp
  next
    case False
    with r r0 n assms show ?thesis by (simp add: retry_invariant_def)
  qed
qed

lemma retry_invariant_schedule_retry:
  assumes "retry_invariant rows" and "schedule_retry cfg pf now rows job = Inr rows'"
  shows "retry_invariant rows'"
proof -
  from assms(2) obtain t where
    "rows' = fst (update_job rows (update_state (job\<lparr>next_retry_at := Some t\<rparr>) FAILED None now))"
    by (auto simp: schedule_retry_def Let_def split: sum.splits)
  then show ?thesis
    using assms(1) by (simp add: retry_invariant_update_job update_state_fields)
qed

lemma schedule_retry_writes_failed:
  assumes "schedule_retry cfg pf now rows job = Inr rows'"
    and "r \<in> set rows'" and "job_id r = job_id job"
  shows "state r = FAILED \<and> next_retry_at r \<noteq> None"
proof -
  from assms(1) obtain t where
    rows': "rows' = fst (update_job rows (update_state (job\<lparr>next_retry_at := Some t\<rparr>) FAILED None now))"
    by (auto simp: schedule_retry_def Let_def split: sum.splits)
  define j where "j = update_state (job\<lparr>next_retry_at := Some t\<rparr>) FAILED None now"
  have j: "job_id j = job_id job" "state j = FAILED" "next_retry_at j = Some t"
    by (simp_all add: j_def update_state_fields)
  from assms(2) have "r \<in> set (fst (update_job rows j))"
    by (simp add: rows' j_def)
  then show ?thesis
  proof (cases rule: update_job_row_cases)
    case (1 r0)
    with j show ?thesis by (simp add: write_columns_fields)
  next
    case 2
    with j assms(3) show ?thesis by simp
  qed
qed

lemma retry_invariant_move_to_dlq:
  assumes "retry_invariant rows"
  shows "retry_invariant (move_to_dlq now rows job err)"
  unfolding move_to_dlq_def using assms by (intro retry_invariant_update_job) simp_all

lemma retry_invariant_reset_job_from_dlq:
  assumes "retry_invariant rows"
  shows "retry_invariant (fst (reset_job_from_dlq now rows jid))"
proof (cases "get_job rows jid")
  case None
  with assms show ?thesis by (simp add: reset_job_from_dlq_def)
next
  case (Some job)
  show ?thesis
  proof (cases "state job = DEAD")
    case True
    with Some have "fst (reset_job_from_dlq now rows jid) =
        fst (update_job rows (job\<lparr>state := PENDING, attempts := 0, error := None,
                            next_retry_at := None, updated_at := now\<rparr>))"
      by (simp add: reset_job_from_dlq_def Let_def)
    with assms show ?thesis by (simp add: retry_invariant_update_job)
  next
    case False
    with Some assms show ?thesis by (simp add: reset_job_from_dlq_def)
  qed
qed

lemma retry_invariant_process_job:
  assumes inv: "retry_invariant rows"
    and claimed: "\<forall>j. get_job rows (job_id job0) = Some j \<longrightarrow> state j = PROCESSING"
  shows "retry_invariant (fst (process_job cfg run pf clk rows job0))"
proof (cases "get_job rows (job_id job0)")
  case None
  with inv show ?thesis by (simp add: process_job_absent)
next
  case (Some job)
  with claimed have st: "state job = PROCESSING" by simp
  from Some have "job \<in> set rows" using get_job_SomeD by blast
  with inv st have nr: "next_retry_at job = None"
    unfolding retry_invariant_def by (cases "next_retry_at job") auto
  obtain ok out err where ex: "execute (default_timeout cfg) job (run job) = (ok, out, err)"
    by (cases "execute (default_timeout cfg) job (run job)") auto
  show ?thesis
  proof (cases ok)
    case True
    with process_job_success[OF Some st, of cfg run out err pf clk] ex
    have "fst (process_job cfg run pf clk rows job0) =
      fst (update_job rows (update_state (job\<lparr>output_text := Some out\<rparr>) COMPLETED None (clk 1)))"
      by simp
    with inv nr show ?thesis
      by (simp add: retry_invariant_update_job update_state_fields)
  next
    case False
    with process_job_failure[OF Some st, of cfg run out err pf clk] ex
    have "fst (process_job cfg run pf clk rows job0) =
      fst (update_job rows
        (update_state (increment_attempts (job\<lparr>output_text := Some out\<rparr>) (clk 1)) FAILED err (clk 2)))"
      by simp
    with inv show ?thesis
      by (simp add: retry_invariant_update_job update_state_fields)
  qed
qed

lemma sql_update_ids:
  assumes "\<And>r. job_id (st r) = job_id r"
  shows "map job_id (fst (sql_update wh st rows)) = map job_id rows"
  by (simp add: sql_update_def assms)

lemma reset_retryable_ids:
  "map job_id (fst (reset_retryable_job_to_pending now rows jid)) = map job_id rows"
  by (simp add: reset_retryable_rows)

lemma update_job_ids: "map job_id (fst (update_job rows job)) = map job_id rows"
  by (simp add: update_job_rows write_columns_fields)

lemma get_next_job_rows:
  "fst (get_next_job clk rows) =
     (case get_retryable_jobs (clk 0) rows of
        [] \<Rightarrow> rows
      | job # _ \<Rightarrow> fst (reset_retryable_job_to_pending (clk 1) rows (job_id job)))"
  by (simp add: get_next_job_def split: list.splits prod.splits bool.splits)

lemma retry_invariant_get_next_job:
  "retry_invariant rows \<Longrightarrow> retry_invariant (fst (get_next_job clk rows))"
  by (simp add: get_next_job_rows retry_invariant_reset_retryable split: list.splits)

lemma get_next_job_ids: "map job_id (fst (get_next_job clk rows)) = map job_id rows"
  by (simp add: get_next_job_rows reset_retryable_ids split: list.splits)

lemma distinct_ids_same:
  assumes "distinct (map job_id rows)" and "r \<in> set rows" and "r' \<in> set rows"
    and "job_id r = job_id r'"
  shows "r = r'"
  using assms by (meson distinct_map inj_onD)

text \<open>With the primary key, the record a worker reloads after its claim is processing.\<close>

lemma claimed_is_processing:
  assumes d: "distinct (map job_id rows)" and ok: "snd (acquire_job_lock rows jid)"
    and g: "get_job (fst (acquire_job_lock rows jid)) jid = Some job"
  shows "state job = PROCESSING"
proof -
  from g have "job \<in> set (fst (acquire_job_lock rows jid))" and id: "job_id job = jid"
    using get_job_SomeD by blast+
  then show ?thesis
  proof (cases rule: acquire_row_cases)
    case (1 r0)
    then show ?thesis by simp
  next
    case 2
    from ok obtain p where p: "p \<in> set rows" "job_id p = jid" "state p = PENDING"
      unfolding acquire_ok by blast
    with 2 id d have "p = job" by (intro distinct_ids_same[of rows]) simp_all
    with p 2 id show ?thesis by simp
  qed
qed

lemma work_pass_rows:
  obtains (idle) "fst (work_pass cfg run pf clk rows) = fst (get_next_job clk rows)"
  | (claimed) job where "snd (get_next_job clk rows) = Some job"
      and "fst (work_pass cfg run pf clk rows) =
             fst (acquire_job_lock (fst (get_next_job clk rows)) (job_id job))"
  | (processed) job job' where "snd (get_next_job clk rows) = Some job"
      and "snd (acquire_job_lock (fst (get_next_job clk rows)) (job_id job))"
      and "get_job (fst (acquire_job_lock (fst (get_next_job clk rows)) (job_id job))) (job_id job)
             = Some job'"
      and "work_pass cfg run pf clk rows =
             (fst (process_job cfg run pf (\<lambda>i. clk (i + 3))
                    (fst (acquire_job_lock (fst (get_next_job clk rows)) (job_id job))) job'),
              Processed (job_id job')
                (snd (process_job cfg run pf (\<lambda>i. clk (i + 3))
                    (fst (acquire_job_lock (fst (get_next_job clk rows)) (job_id job))) job')))"
proof -
  obtain rows1 oj where g: "get_next_job clk rows = (rows1, oj)"
    by (cases "get_next_job clk rows") auto
  show ?thesis
  proof (cases oj)
    case None
    with g idle show ?thesis by (simp add: work_pass_def)
  next
    case (Some job)
    obtain rows2 ok where a: "acquire_job_lock rows1 (job_id job) = (rows2, ok)"
      by (cases "acquire_job_lock rows1 (job_id job)") auto
    show ?thesis
    proof (cases ok)
      case False
      with g Some a claimed[of job] show ?thesis by (simp add: work_pass_def)
    next
      case True
      show ?thesis
      proof (cases "get_job rows2 (job_id job)")
        case None
        with g Some a True claimed[of job] show ?thesis by (simp add: work_pass_def)
      next
        case (Some job')
        with g \<open>oj = Some job\<close> a True processed[of job job'] show ?thesis
          by (simp add: work_pass_def split: prod.splits)
      qed
    qed
  qed
qed

lemma retry_invariant_work_pass:
  assumes inv: "retry_invariant rows" and d: "distinct (map job_id rows)"
  shows "retry_invariant (fst (work_pass cfg run pf clk rows))"
proof (cases rule: work_pass_rows[of cfg run pf clk rows])
  case idle
  with inv show ?thesis by (simp add: retry_invariant_get_next_job)
next
  case (claimed job)
  with inv show ?thesis by (simp add: retry_invariant_get_next_job retry_invariant_acquire)
next
  case (processed job job')
  let ?rows1 = "fst (get_next_job clk rows)"
  let ?rows2 = "fst (acquire_job_lock ?rows1 (job_id job))"
  have d1: "distinct (map job_id ?rows1)" using d by (simp add: get_next_job_ids)
  have st: "state job' = PROCESSING"
    using claimed_is_processing[OF d1 processed(2) processed(3)] .
  have id: "job_id job' = job_id job"
    using processed(3) get_job_SomeD by blast
  have inv2: "retry_invariant ?rows2"
    using inv by (simp add: retry_invariant_get_next_job retry_invariant_acquire)
  have "retry_invariant (fst (process_job cfg run pf (\<lambda>i. clk (i + 3)) ?rows2 job'))"
    using inv2 by (rule retry_invariant_process_job) (simp add: id processed(3) st)
  with processed(4) show ?thesis by simp
qed

text \<open>
  C8. The predicate "\<^verbatim>\<open>next_retry_at\<close> set implies state failed" holds of the empty table,
  and every engine operation that writes the table keeps it: enqueue, the claim,
  \<^verbatim>\<open>schedule_retry\<close> (which sets the retry time together with the state failed),
  \<^verbatim>\<open>move_to_dlq\<close>, the finalization by \<^verbatim>\<open>process_job\<close> of a job in state processing (its
  documented precondition; both the completion and the failure), the retry release and the
  reset from the dead-letter queue; and so does a whole pass of the worker loop on a table
  with unique ids.
\<close>

theorem retry_invariant_preserved:
  assumes "retry_invariant rows"
  shows "retry_invariant []
    \<and> retry_invariant (fst (enqueue cfg now rows d))
    \<and> retry_invariant (fst (acquire_job_lock rows jid))
    \<and> (\<forall>rows'. schedule_retry cfg pf now rows job = Inr rows' \<longrightarrow>
          retry_invariant rows'
          \<and> (\<forall>r \<in> set rows'. job_id r = job_id job \<longrightarrow>
                state r = FAILED \<and> next_retry_at r \<noteq> None))
    \<and> retry_invariant (move_to_dlq now rows job err)
    \<and> ((\<forall>j. get_job rows (job_id job) = Some j \<longrightarrow> state j = PROCESSING) \<longrightarrow>
          retry_invariant (fst (process_job cfg run pf clk rows job)))
    \<and> retry_invariant (fst (reset_retryable_job_to_pending now rows jid))
    \<and> retry_invariant (fst (reset_job_from_dlq now rows jid))
    \<and> (distinct (map job_id rows) \<longrightarrow>
          retry_invariant (fst (work_pass cfg run pf clk rows)))"
proof (intro conjI)
  show "retry_invariant []" by (simp add: retry_invariant_def)
  show "retry_invariant (fst (enqueue cfg now rows d))"
    using assms by (rule retry_invariant_enqueue)
  show "retry_invariant (fst (acquire_job_lock rows jid))"
    using assms by (rule retry_invariant_acquire)
  show "\<forall>rows'. schedule_retry cfg pf now rows job = Inr rows' \<longrightarrow>
          retry_invariant rows'
          \<and> (\<forall>r \<in> set rows'. job_id r = job_id job \<longrightarrow>
                state r = FAILED \<and> next_retry_at r \<noteq> None)"
    using assms retry_invariant_schedule_retry schedule_retry_writes_failed by blast
  show "retry_invariant (move_to_dlq now rows job err)"
    using assms by (rule retry_invariant_move_to_dlq)
  show "(\<forall>j. get_job rows (job_id job) = Some j \<longrightarrow> state j = PROCESSING) \<longrightarrow>
          retry_invariant (fst (process_job cfg run pf clk rows job))"
    using assms retry_invariant_process_job by blast
  show "retry_invariant (fst (reset_retryable_job_to_pending now rows jid))"
    using assms by (rule retry_invariant_reset_retryable)
  show "retry_invariant (fst (reset_job_from_dlq now rows jid))"
    using assms by (rule retry_invariant_reset_job_from_dlq)
  show "distinct (map job_id rows) \<longrightarrow>
          retry_invariant (fst (work_pass cfg run pf clk rows))"
    using assms retry_invariant_work_pass by blast
qed

theorem retry_invariant_preserved_witness:
  "retry_invariant [sample_failed_job]
   \<and> retry_invariant (fst (enqueue default_config ''2026-01-01T00:00:09Z'' [sample_failed_job]
         \<lparr>data_id = ''a'', data_command = ''echo hi'', data_max_retries = None,
          data_priority = None, data_run_at = None, data_timeout = None\<rparr>))
   \<and> retry_invariant (fst (reset_retryable_job_to_pending ''2026-01-01T00:00:09Z''
         [sample_failed_job] ''test_job_fail''))
   \<and> distinct (map job_id [sample_failed_job])
   \<and> retry_invariant (fst (work_pass default_config (\<lambda>j. Exited 1 [] []) sample_platform
         sample_clock [sample_failed_job]))
   \<and> retry_invariant [sample_claimed_job]
   \<and> get_job [sample_claimed_job] (job_id sample_claimed_job) = Some sample_claimed_job
   \<and> state sample_claimed_job = PROCESSING
   \<and> retry_invariant (fst (process_job default_config (\<lambda>j. Exited 0 ''ok'' []) sample_platform
         sample_clock [sample_claimed_job] sample_claimed_job))
   \<and> (\<exists>rows'. schedule_retry default_config sample_platform ''2026-01-01T00:00:09Z''
                 [sample_claimed_job] sample_claimed_job = Inr rows'
              \<and> retry_invariant rows')"
proof -
  have inv1: "retry_invariant [sample_failed_job]"
    by (simp add: retry_invariant_def sample_failed_job_def)
  have inv2: "retry_invariant [sample_claimed_job]"
    by (simp add: retry_invariant_def sample_claimed_job_def sample_job_def sample_data_def new_job_def)
  have g: "get_job [sample_claimed_job] (job_id sample_claimed_job) = Some sample_claimed_job"
    by (simp add: get_job_Cons)
  have st: "state sample_claimed_job = PROCESSING"
    by (simp add: sample_claimed_job_def)
  have s: "schedule_retry default_config sample_platform ''2026-01-01T00:00:09Z''
             [sample_claimed_job] sample_claimed_job
           = Inr (fst (update_job [sample_claimed_job]
                   (update_state (sample_claimed_job\<lparr>next_retry_at := Some ''2026-01-01T00:00:11Z''\<rparr>)
                      FAILED None ''2026-01-01T00:00:09Z'')))"
    by (simp add: schedule_retry_def sample_platform_def calculate_retry_delay_def
        default_config_def)
  note a = retry_invariant_preserved [OF inv1, of default_config "''2026-01-01T00:00:09Z''"
      "\<lparr>data_id = ''a'', data_command = ''echo hi'', data_max_retries = None,
        data_priority = None, data_run_at = None, data_timeout = None\<rparr>"
      "''test_job_fail''" sample_platform sample_failed_job "''e''"
      "\<lambda>j. Exited 1 [] []" sample_clock]
  note b = retry_invariant_preserved [OF inv2, of default_config "''2026-01-01T00:00:09Z''"
      "\<lparr>data_id = ''a'', data_command = ''echo hi'', data_max_retries = None,
        data_priority = None, data_run_at = None, data_timeout = None\<rparr>"
      "''test_job_fail''" sample_platform sample_claimed_job "''e''"
      "\<lambda>j. Exited 0 ''ok'' []" sample_clock]
  have d: "distinct (map job_id [sample_failed_job])" by simp
  from a d have w: "retry_invariant (fst (work_pass default_config (\<lambda>j. Exited 1 [] [])
         sample_platform sample_clock [sample_failed_job]))"
    by blast
  from b g st have p: "retry_invariant (fst (process_job default_config (\<lambda>j. Exited 0 ''ok'' [])
         sample_platform sample_clock [sample_claimed_job] sample_claimed_job))"
    by simp
  from b s have r: "\<exists>rows'. schedule_retry default_config sample_platform ''2026-01-01T00:00:09Z''
                 [sample_claimed_job] sample_claimed_job = Inr rows'
              \<and> retry_invariant rows'"
    by blast
  from a have e: "retry_invariant (fst (enqueue default_config ''2026-01-01T00:00:09Z''
         [sample_failed_job]
         \<lparr>data_id = ''a'', data_command = ''echo hi'', data_max_retries = None,
          data_priority = None, data_run_at = None, data_timeout = None\<rparr>))"
    and rr: "retry_invariant (fst (reset_retryable_job_to_pending ''2026-01-01T00:00:09Z''
         [sample_failed_job] ''test_job_fail''))"
    by blast+
  from inv1 e rr d w inv2 g st p r show ?thesis by blast
qed

section \<open>Finalization of a failed execution\<close>

text \<open>
  What \<^verbatim>\<open>process_job\<close> writes for a claimed job whose execution failed, whatever its
  \<^verbatim>\<open>attempts\<close> and \<^verbatim>\<open>max_retries\<close>: the record with the output stored, the attempts
  incremented, the state failed, the error text when there is one, and \<^verbatim>\<open>next_retry_at\<close>
  as it was.
\<close>

lemma process_job_failure_record:
  assumes g: "get_job rows (job_id job0) = Some job" and st: "state job = PROCESSING"
    and ex: "execute (default_timeout cfg) job (run job) = (False, out, err)"
  shows "get_job (fst (process_job cfg run pf clk rows job0)) (job_id job0) =
     Some (job\<lparr>output_text := Some out, attempts := attempts job + 1, state := FAILED,
               updated_at := clk 2, error := (if truthy_str err then err else error job)\<rparr>)"
proof -
  define j where
    "j = update_state (increment_attempts (job\<lparr>output_text := Some out\<rparr>) (clk 1)) FAILED err (clk 2)"
  have pj: "fst (process_job cfg run pf clk rows job0) = fst (update_job rows j)"
    using process_job_failure[of rows job0 job cfg run out err pf clk] g st ex
    by (simp add: j_def)
  have jid: "job_id j = job_id job0"
    using get_job_SomeD[OF g] by (simp add: j_def update_state_fields increment_attempts_def)
  have jeq: "j = job\<lparr>output_text := Some out, attempts := attempts job + 1, state := FAILED,
               updated_at := clk 2, error := (if truthy_str err then err else error job)\<rparr>"
    by (simp add: j_def update_state_def Let_def increment_attempts_def)
  have "get_job (fst (update_job rows j)) (job_id j) = Some j"
    by (rule get_job_update_job[of rows j job]) (use g jid in \<open>simp_all add: jeq\<close>)
  with pj jid jeq show ?thesis by simp
qed

text \<open>
  C1 fails on the code. The sample job (\<^verbatim>\<open>max_retries\<close> 2, claimed, attempts 0) fails with
  exit code 1: the claim asks for state failed with \<^verbatim>\<open>next_retry_at\<close> = now + backoff(1),
  but \<^verbatim>\<open>process_job\<close> writes state failed with \<^verbatim>\<open>next_retry_at\<close> unset. The same job with
  \<^verbatim>\<open>max_retries\<close> 0 should become dead (attempts 1 \<ge> 0) and is written as failed too.
  \<^verbatim>\<open>should_retry\<close> and \<^verbatim>\<open>should_move_to_dlq\<close> both test for state failed while the record is
  still processing, so the branch marked "Shouldn't happen" is the one that always runs.
\<close>

theorem process_job_failure_at_sample:
  "process_job default_config (\<lambda>j. Exited 1 [] []) sample_platform sample_clock
       [sample_claimed_job] sample_claimed_job =
     ([sample_claimed_job\<lparr>output_text := Some [], attempts := 1, state := FAILED,
          updated_at := ''2026-01-01T00:00:09Z'',
          error := Some ''Command failed with exit code 1'', next_retry_at := None\<rparr>],
      Inr False)
   \<and> process_job default_config (\<lambda>j. Exited 1 [] []) sample_platform sample_clock
       [sample_claimed_job\<lparr>max_retries := 0\<rparr>] (sample_claimed_job\<lparr>max_retries := 0\<rparr>) =
     ([sample_claimed_job\<lparr>max_retries := 0, output_text := Some [], attempts := 1,
          state := FAILED, updated_at := ''2026-01-01T00:00:09Z'',
          error := Some ''Command failed with exit code 1'', next_retry_at := None\<rparr>],
      Inr False)"
  by (simp add: process_job_def sample_claimed_job_def sample_job_def sample_data_def new_job_def
      default_config_def sample_clock_def get_job_def fetchone_def execute_def timeout_or_def
      str_int_def str_nat.simps digit_char_def increment_attempts_def should_retry_def
      should_move_to_dlq_def update_state_def truthy_str_def update_job_def sql_update_def
      write_columns_def)

section \<open>What a pass leaves alone\<close>

lemma rows_of_update_job_other:
  "job_id job \<noteq> jid \<Longrightarrow> rows_of jid (fst (update_job rows job)) = rows_of jid rows"
  by (induction rows) (simp_all add: rows_of_def update_job_rows write_columns_fields)

lemma rows_of_acquire_other:
  "other \<noteq> jid \<Longrightarrow> rows_of jid (fst (acquire_job_lock rows other)) = rows_of jid rows"
  by (induction rows) (simp_all add: rows_of_def acquire_rows)

lemma rows_of_acquire_not_pending:
  "\<forall>r \<in> set (rows_of jid rows). state r \<noteq> PENDING \<Longrightarrow>
     rows_of jid (fst (acquire_job_lock rows other)) = rows_of jid rows"
  by (induction rows) (simp_all add: rows_of_def acquire_rows)

lemma rows_of_reset_not_due:
  "\<forall>r \<in> set (rows_of jid rows). \<not> retry_due now r \<Longrightarrow>
     rows_of jid (fst (reset_retryable_job_to_pending now rows other)) = rows_of jid rows"
  by (induction rows) (simp_all add: rows_of_def reset_retryable_rows)

lemma not_due_without_retry_time: "next_retry_at r = None \<Longrightarrow> \<not> retry_due now r"
  by (simp add: retry_due_def)

lemma rows_of_get_next_job:
  assumes "\<forall>r \<in> set (rows_of jid rows). next_retry_at r = None"
  shows "rows_of jid (fst (get_next_job clk rows)) = rows_of jid rows"
proof (cases "get_retryable_jobs (clk 0) rows")
  case Nil
  then show ?thesis by (simp add: get_next_job_rows)
next
  case (Cons job rest)
  have "\<forall>r \<in> set (rows_of jid rows). \<not> retry_due (clk 1) r"
    using assms not_due_without_retry_time by blast
  from rows_of_reset_not_due[OF this] Cons show ?thesis by (simp add: get_next_job_rows)
qed

lemma process_job_ids:
  "map job_id (fst (process_job cfg run pf clk rows job0)) = map job_id rows"
  by (simp add: process_job_def Let_def update_job_ids move_to_dlq_def schedule_retry_def
      split: option.splits prod.splits sum.splits)

lemma rows_of_process_job_other:
  assumes "job_id job0 \<noteq> jid"
  shows "rows_of jid (fst (process_job cfg run pf clk rows job0)) = rows_of jid rows"
proof (cases "get_job rows (job_id job0)")
  case None
  then show ?thesis by (simp add: process_job_absent)
next
  case (Some job)
  from get_job_SomeD[OF Some] assms have id: "job_id job \<noteq> jid" by simp
  with Some show ?thesis
    by (simp add: process_job_def Let_def move_to_dlq_def schedule_retry_def
        rows_of_update_job_other update_state_fields increment_attempts_def
        split: prod.splits sum.splits)
qed

section \<open>How often a failing job is executed\<close>

lemma get_retryable_jobs_set:
  "set (get_retryable_jobs now rows) = {r \<in> set rows. retry_due now r}"
  by (simp add: get_retryable_jobs_def set_order_by)

lemma get_next_job_result:
  assumes "snd (get_next_job clk rows) = Some j"
  shows "j \<in> set (fst (get_next_job clk rows))
     \<and> (state j = PENDING \<or> (\<exists>job \<in> set rows. retry_due (clk 0) job \<and> job_id j = job_id job))"
proof (cases "get_retryable_jobs (clk 0) rows")
  case Nil
  with assms have "get_next_pending_job (clk 2) rows = Some j" by (simp add: get_next_job_def)
  from get_next_pending_job_Some[OF this] Nil show ?thesis
    by (simp add: get_next_job_rows ready_pending_iff)
next
  case (Cons job rest)
  then have "job \<in> set (get_retryable_jobs (clk 0) rows)" by simp
  then have job: "job \<in> set rows" "retry_due (clk 0) job"
    by (simp_all add: get_retryable_jobs_set)
  obtain rows' ok where r: "reset_retryable_job_to_pending (clk 1) rows (job_id job) = (rows', ok)"
    by (cases "reset_retryable_job_to_pending (clk 1) rows (job_id job)") auto
  have f: "fst (get_next_job clk rows) = rows'"
    using Cons r by (simp add: get_next_job_rows)
  show ?thesis
  proof (cases ok)
    case True
    with assms Cons r have "get_job rows' (job_id job) = Some j" by (simp add: get_next_job_def)
    from get_job_SomeD[OF this] job f show ?thesis by auto
  next
    case False
    with assms Cons r have "get_next_pending_job (clk 2) rows' = Some j"
      by (simp add: get_next_job_def)
    from get_next_pending_job_Some[OF this] f show ?thesis
      by (simp add: ready_pending_iff)
  qed
qed

lemma work_pass_ids:
  "map job_id (fst (work_pass cfg run pf clk rows)) = map job_id rows"
  by (cases rule: work_pass_cases[of cfg run pf clk rows])
     (simp_all add: get_next_job_ids acquire_ids process_job_ids)

text \<open>
  A job whose records have no retry time and are not pending is not picked by a pass:
  the pass does not execute it and leaves its records as they are.
\<close>

lemma work_pass_skips:
  assumes skip: "\<forall>r \<in> set (rows_of jid rows). next_retry_at r = None \<and> state r \<noteq> PENDING"
  shows "rows_of jid (fst (work_pass cfg run pf clk rows)) = rows_of jid rows
     \<and> \<not> executed jid (snd (work_pass cfg run pf clk rows))"
proof -
  let ?rows1 = "fst (get_next_job clk rows)"
  have r1: "rows_of jid ?rows1 = rows_of jid rows"
    using skip by (intro rows_of_get_next_job) blast
  show ?thesis
  proof (cases rule: work_pass_cases[of cfg run pf clk rows])
    case idle
    with r1 show ?thesis by simp
  next
    case lost
    with r1 show ?thesis by simp
  next
    case (processed job job')
    note res = get_next_job_result[OF processed(1)]
    have other: "job_id job \<noteq> jid"
    proof
      assume eq: "job_id job = jid"
      with res have "job \<in> set (rows_of jid ?rows1)" by (simp add: rows_of_def)
      with r1 skip have "state job \<noteq> PENDING" by simp
      with res obtain job0 where j0: "job0 \<in> set rows" "retry_due (clk 0) job0"
        "job_id job = job_id job0" by blast
      with eq have "job0 \<in> set (rows_of jid rows)" by (simp add: rows_of_def)
      with skip have "next_retry_at job0 = None" by blast
      with j0 show False by (simp add: not_due_without_retry_time)
    qed
    have id': "job_id job' = job_id job" using get_job_SomeD[OF processed(3)] by simp
    have "rows_of jid (fst (work_pass cfg run pf clk rows)) =
        rows_of jid (fst (acquire_job_lock ?rows1 (job_id job)))"
      using other id' by (simp add: processed(4) rows_of_process_job_other)
    also have "\<dots> = rows_of jid ?rows1"
      using other by (simp add: rows_of_acquire_other)
    finally show ?thesis using r1 other id' by (simp add: processed(4))
  qed
qed

text \<open>
  A pass on a table with unique ids, for a job whose records have no retry time and are
  pending or failed, and whose command fails: either the pass executes the job and leaves
  it failed without a retry time, or it does not execute it and leaves its records alone.
\<close>

lemma work_pass_failing_job:
  assumes fresh: "\<forall>r \<in> set (rows_of jid rows).
                    next_retry_at r = None \<and> (state r = PENDING \<or> state r = FAILED)"
    and d: "distinct (map job_id rows)"
    and fails: "\<forall>j. job_id j = jid \<longrightarrow> \<not> fst (execute (default_timeout cfg) j (run j))"
  shows "(executed jid (snd (work_pass cfg run pf clk rows)) \<longrightarrow>
            (\<forall>r \<in> set (rows_of jid (fst (work_pass cfg run pf clk rows))).
                next_retry_at r = None \<and> state r = FAILED))
     \<and> (\<not> executed jid (snd (work_pass cfg run pf clk rows)) \<longrightarrow>
            rows_of jid (fst (work_pass cfg run pf clk rows)) = rows_of jid rows)"
proof -
  let ?rows1 = "fst (get_next_job clk rows)"
  have r1: "rows_of jid ?rows1 = rows_of jid rows"
    using fresh by (intro rows_of_get_next_job) blast
  show ?thesis
  proof (cases rule: work_pass_cases[of cfg run pf clk rows])
    case idle
    with r1 show ?thesis by simp
  next
    case lost
    with r1 show ?thesis by simp
  next
    case (processed job job')
    let ?rows2 = "fst (acquire_job_lock ?rows1 (job_id job))"
    let ?clk = "\<lambda>i. clk (i + 3)"
    have id': "job_id job' = job_id job" using get_job_SomeD[OF processed(3)] by simp
    show ?thesis
    proof (cases "job_id job = jid")
      case False
      have "rows_of jid (fst (work_pass cfg run pf clk rows)) = rows_of jid ?rows2"
        using False id' by (simp add: processed(4) rows_of_process_job_other)
      also have "\<dots> = rows_of jid ?rows1"
        using False by (simp add: rows_of_acquire_other)
      finally show ?thesis using r1 False id' by (simp add: processed(4))
    next
      case True
      have d1: "distinct (map job_id ?rows1)" using d by (simp add: get_next_job_ids)
      have st: "state job' = PROCESSING"
        using claimed_is_processing[OF d1 processed(2) processed(3)] .
      have mem: "job' \<in> set ?rows2" using get_job_SomeD[OF processed(3)] by simp
      have nr: "next_retry_at job' = None"
        using mem
      proof (cases rule: acquire_row_cases)
        case (1 r0)
        with True have "r0 \<in> set (rows_of jid ?rows1)" by (simp add: rows_of_def)
        with r1 fresh have "next_retry_at r0 = None" by simp
        with 1 show ?thesis by simp
      next
        case 2
        with True id' have "job' \<in> set (rows_of jid ?rows1)" by (simp add: rows_of_def)
        with r1 fresh show ?thesis by simp
      qed
      obtain ok out err where ex: "execute (default_timeout cfg) job' (run job') = (ok, out, err)"
        by (cases "execute (default_timeout cfg) job' (run job')") auto
      with fails True id' have ex: "execute (default_timeout cfg) job' (run job') = (False, out, err)"
        by auto
      define j where
        "j = update_state (increment_attempts (job'\<lparr>output_text := Some out\<rparr>) (?clk 1)) FAILED err (?clk 2)"
      have g: "get_job ?rows2 (job_id job') = Some job'" using processed(3) id' by simp
      have pj: "fst (process_job cfg run pf ?clk ?rows2 job') = fst (update_job ?rows2 j)"
        using process_job_failure[of ?rows2 job' job' cfg run out err pf ?clk] g st ex
        by (simp add: j_def)
      have j: "job_id j = jid" "state j = FAILED" "next_retry_at j = None"
        using True id' nr by (simp_all add: j_def update_state_fields increment_attempts_def)
      have "next_retry_at r = None \<and> state r = FAILED"
        if "r \<in> set (rows_of jid (fst (update_job ?rows2 j)))" for r
      proof -
        from that have "r \<in> set (fst (update_job ?rows2 j))" and rid: "job_id r = jid"
          by (simp_all add: rows_of_def)
        then show ?thesis
        proof (cases rule: update_job_row_cases)
          case (1 r0)
          with j show ?thesis by (simp add: write_columns_fields)
        next
          case 2
          with j rid show ?thesis by simp
        qed
      qed
      with pj True id' show ?thesis by (simp add: processed(4))
    qed
  qed
qed

lemma work_passes_Cons:
  "work_passes cfg ((run, pf, clk) # envs) rows =
     (fst (work_passes cfg envs (fst (work_pass cfg run pf clk rows))),
      snd (work_pass cfg run pf clk rows)
        # snd (work_passes cfg envs (fst (work_pass cfg run pf clk rows))))"
  by (simp split: prod.splits)

declare work_passes.simps(2) [simp del]

lemma executions_of_Cons:
  "executions_of jid (r # rs) = (if executed jid r then 1 else 0) + executions_of jid rs"
  by (simp add: executions_of_def)

lemma never_executed_again:
  assumes "\<forall>r \<in> set (rows_of jid rows). next_retry_at r = None \<and> state r = FAILED"
  shows "executions_of jid (snd (work_passes cfg envs rows)) = 0"
  using assms
proof (induction envs arbitrary: rows)
  case Nil
  show ?case by (simp add: executions_of_def)
next
  case (Cons env envs)
  obtain run pf clk where env: "env = (run, pf, clk)" by (cases env) auto
  have "\<forall>r \<in> set (rows_of jid rows). next_retry_at r = None \<and> state r \<noteq> PENDING"
    using Cons.prems by auto
  note s = work_pass_skips[OF this, of cfg run pf clk]
  with Cons.prems
  have "\<forall>r \<in> set (rows_of jid (fst (work_pass cfg run pf clk rows))).
          next_retry_at r = None \<and> state r = FAILED"
    by simp
  from Cons.IH[OF this] s show ?case
    by (simp add: env work_passes_Cons executions_of_Cons)
qed

lemma executed_at_most_once:
  assumes "\<forall>r \<in> set (rows_of jid rows).
              next_retry_at r = None \<and> (state r = PENDING \<or> state r = FAILED)"
    and "distinct (map job_id rows)"
    and "\<forall>(run, pf, clk) \<in> set envs.
            \<forall>j. job_id j = jid \<longrightarrow> \<not> fst (execute (default_timeout cfg) j (run j))"
  shows "executions_of jid (snd (work_passes cfg envs rows)) \<le> 1"
  using assms
proof (induction envs arbitrary: rows)
  case Nil
  show ?case by (simp add: executions_of_def)
next
  case (Cons env envs)
  obtain run pf clk where env: "env = (run, pf, clk)" by (cases env) auto
  let ?wp = "work_pass cfg run pf clk rows"
  have fails: "\<forall>j. job_id j = jid \<longrightarrow> \<not> fst (execute (default_timeout cfg) j (run j))"
    using Cons.prems(3) env by auto
  have rest: "\<forall>(run, pf, clk) \<in> set envs.
            \<forall>j. job_id j = jid \<longrightarrow> \<not> fst (execute (default_timeout cfg) j (run j))"
    using Cons.prems(3) by auto
  note p = work_pass_failing_job[OF Cons.prems(1,2) fails, of pf clk]
  have d: "distinct (map job_id (fst ?wp))"
    using Cons.prems(2) by (simp add: work_pass_ids)
  show ?case
  proof (cases "executed jid (snd ?wp)")
    case True
    with p have "\<forall>r \<in> set (rows_of jid (fst ?wp)). next_retry_at r = None \<and> state r = FAILED"
      by blast
    from never_executed_again[OF this, of cfg envs] True show ?thesis
      by (simp add: env work_passes_Cons executions_of_Cons)
  next
    case False
    with p have "rows_of jid (fst ?wp) = rows_of jid rows" by blast
    with Cons.prems(1)
    have "\<forall>r \<in> set (rows_of jid (fst ?wp)).
              next_retry_at r = None \<and> (state r = PENDING \<or> state r = FAILED)"
      by simp
    from Cons.IH[OF this d rest] False show ?thesis
      by (simp add: env work_passes_Cons executions_of_Cons)
  qed
qed

lemma failing_pass_on_sample:
  "work_pass default_config (\<lambda>j. Exited 1 [] []) sample_platform sample_clock [sample_job] =
     ([sample_job\<lparr>output_text := Some [], attempts := 1, state := FAILED,
          updated_at := ''2026-01-01T00:00:09Z'',
          error := Some ''Command failed with exit code 1''\<rparr>],
      Processed ''test_job_fail'' (Inr False))"
  by (simp add: work_pass_def get_next_job_def get_retryable_jobs_def retry_due_def order_by_def
      get_next_pending_job_def ready_pending_def sql_limit_def fetchone_def
      acquire_job_lock_def sql_update_def get_job_def
      process_job_def sample_job_def sample_data_def new_job_def
      default_config_def sample_clock_def execute_def timeout_or_def
      str_int_def str_nat.simps digit_char_def increment_attempts_def should_retry_def
      should_move_to_dlq_def update_state_def truthy_str_def update_job_def
      write_columns_def)

lemma failing_pass_without_retries:
  "work_pass default_config (\<lambda>j. Exited 1 [] []) sample_platform sample_clock
       [sample_job\<lparr>max_retries := 0\<rparr>] =
     ([sample_job\<lparr>max_retries := 0, output_text := Some [], attempts := 1, state := FAILED,
          updated_at := ''2026-01-01T00:00:09Z'',
          error := Some ''Command failed with exit code 1''\<rparr>],
      Processed ''test_job_fail'' (Inr False))"
  by (simp add: work_pass_def get_next_job_def get_retryable_jobs_def retry_due_def order_by_def
      get_next_pending_job_def ready_pending_def sql_limit_def fetchone_def
      acquire_job_lock_def sql_update_def get_job_def
      process_job_def sample_job_def sample_data_def new_job_def
      default_config_def sample_clock_def execute_def timeout_or_def
      str_int_def str_nat.simps digit_char_def increment_attempts_def should_retry_def
      should_move_to_dlq_def update_state_def truthy_str_def update_job_def
      write_columns_def)

lemma idle_pass_on_failed_sample:
  "work_pass default_config (\<lambda>j. Exited 1 [] []) sample_platform sample_clock
     [sample_job\<lparr>output_text := Some [], attempts := 1, state := FAILED,
          updated_at := ''2026-01-01T00:00:09Z'',
          error := Some ''Command failed with exit code 1''\<rparr>] =
     ([sample_job\<lparr>output_text := Some [], attempts := 1, state := FAILED,
          updated_at := ''2026-01-01T00:00:09Z'',
          error := Some ''Command failed with exit code 1''\<rparr>], Idle)"
  by (simp add: work_pass_def get_next_job_def get_retryable_jobs_def retry_due_def order_by_def
      get_next_pending_job_def ready_pending_def sql_limit_def fetchone_def
      sample_job_def sample_data_def new_job_def)

text \<open>
  C2 fails on the code, by the defect of C1. The sample job has \<^verbatim>\<open>max_retries\<close> 2 and
  always exits with code 1. After three passes of the worker it has been executed once,
  not three times, and is failed with attempts 1, not dead with attempts 3: the first pass
  leaves it failed without a retry time and the later passes find nothing to do. The same
  job with \<^verbatim>\<open>max_retries\<close> 0 should be dead after its one execution and is left failed as
  well. \<^verbatim>\<open>should_retry\<close> and \<^verbatim>\<open>should_move_to_dlq\<close> test for state failed while the
  record is still processing, so no job is retried and none becomes dead.
\<close>

theorem failing_job_is_never_dead_at_sample:
  "max_retries sample_job = 2
   \<and> snd (work_passes default_config [failing_env, failing_env, failing_env] [sample_job]) =
       [Processed ''test_job_fail'' (Inr False), Idle, Idle]
   \<and> map state (fst (work_passes default_config [failing_env, failing_env, failing_env]
        [sample_job])) = [FAILED]
   \<and> map attempts (fst (work_passes default_config [failing_env, failing_env, failing_env]
        [sample_job])) = [1]
   \<and> map next_retry_at (fst (work_passes default_config [failing_env, failing_env, failing_env]
        [sample_job])) = [None]
   \<and> snd (work_passes default_config [failing_env] [sample_job\<lparr>max_retries := 0\<rparr>]) =
       [Processed ''test_job_fail'' (Inr False)]
   \<and> map state (fst (work_passes default_config [failing_env] [sample_job\<lparr>max_retries := 0\<rparr>]))
       = [FAILED]"
proof -
  have w: "work_passes default_config [failing_env, failing_env, failing_env] [sample_job] =
     ([sample_job\<lparr>output_text := Some [], attempts := 1, state := FAILED,
          updated_at := ''2026-01-01T00:00:09Z'',
          error := Some ''Command failed with exit code 1''\<rparr>],
      [Processed ''test_job_fail'' (Inr False), Idle, Idle])"
    by (simp only: failing_env_def work_passes_Cons failing_pass_on_sample
        idle_pass_on_failed_sample work_passes.simps(1) fst_conv snd_conv)
  have v: "work_passes default_config [failing_env] [sample_job\<lparr>max_retries := 0\<rparr>] =
     ([sample_job\<lparr>max_retries := 0, output_text := Some [], attempts := 1, state := FAILED,
          updated_at := ''2026-01-01T00:00:09Z'',
          error := Some ''Command failed with exit code 1''\<rparr>],
      [Processed ''test_job_fail'' (Inr False)])"
    by (simp only: failing_env_def work_passes_Cons failing_pass_without_retries
        work_passes.simps(1) fst_conv snd_conv)
  have m: "max_retries sample_job = 2 \<and> next_retry_at sample_job = None"
    by (simp add: sample_job_def sample_data_def new_job_def)
  from w v m show ?thesis by simp
qed

end
